theory Spec2Isabelle
  imports Main "HOL-Library.AList" "HOL-Library.Sublist"
begin

section \<open>Values of the JavaScript runtime\<close>

text \<open>
  The backend is \<^verbatim>\<open>src/backend/api-server.js\<close>. Times are milliseconds since the epoch,
  as \<^verbatim>\<open>Date.now()\<close> and \<^verbatim>\<open>Date.getTime()\<close> give them. A JSON value that the code
  only tests for truthiness, stores or prints is a \<open>jsval\<close>; \<^verbatim>\<open>undefined\<close> (an absent
  property) is \<open>None\<close> of a \<open>jsval option\<close>. Numbers are the integers (no NaN, no
  fractions).
\<close>

type_synonym time = int

text \<open>
  A JavaScript string is its sequence of UTF-16 code units, each a number below 65536. A
  literal of the source is written \<open>lit\<close> of its ASCII text.
\<close>

type_synonym jstring = "nat list"

definition lit :: "string \<Rightarrow> jstring" where
  "lit s = map of_char s"

datatype jsval =
    JNull
  | JBool bool
  | JNum int
  | JStr jstring
  | JArr "jsval list"
  | JObj "(jstring \<times> jsval) list"

fun truthy :: "jsval \<Rightarrow> bool" where
  "truthy JNull = False"
| "truthy (JBool b) = b"
| "truthy (JNum n) = (n \<noteq> 0)"
| "truthy (JStr s) = (s \<noteq> [])"
| "truthy (JArr xs) = True"
| "truthy (JObj kvs) = True"

fun truthy_opt :: "jsval option \<Rightarrow> bool" where
  "truthy_opt None = False"
| "truthy_opt (Some v) = truthy v"

text \<open>
  The code units \<^verbatim>\<open>String.prototype.trim\<close> strips: the white space and the line
  terminators of ECMAScript (tab, line feed, vertical tab, form feed, carriage return,
  space, U+00A0, U+1680, U+2000 to U+200A, U+2028, U+2029, U+202F, U+205F, U+3000, U+FEFF).
\<close>

definition is_space :: "nat \<Rightarrow> bool" where
  "is_space c =
     (c \<in> set [0x09, 0x0A, 0x0B, 0x0C, 0x0D, 0x20, 0xA0, 0x1680, 0x2028, 0x2029, 0x202F,
                0x205F, 0x3000, 0xFEFF]
      \<or> (0x2000 \<le> c \<and> c \<le> 0x200A))"

definition trim :: "jstring \<Rightarrow> jstring" where
  "trim s = rev (dropWhile is_space (rev (dropWhile is_space s)))"

text \<open>\<^verbatim>\<open>s.includes(pat)\<close> and \<^verbatim>\<open>s.replace(pat, '')\<close> (the first occurrence only).\<close>

fun str_includes :: "jstring \<Rightarrow> jstring \<Rightarrow> bool" where
  "str_includes [] pat = (pat = [])"
| "str_includes (c # cs) pat = (prefix pat (c # cs) \<or> str_includes cs pat)"

fun replace_first :: "jstring \<Rightarrow> jstring \<Rightarrow> jstring" where
  "replace_first [] pat = []"
| "replace_first (c # cs) pat =
     (if prefix pat (c # cs) then drop (length pat) (c # cs) else c # replace_first cs pat)"

section \<open>Data of the conversation\<close>

type_synonym args = "jstring \<rightharpoonup> jsval"

text \<open>An entry \<^verbatim>\<open>{type, text}\<close> of a tool result's \<^verbatim>\<open>content\<close> array.\<close>

record item =
  itype :: jstring
  itext :: "jstring option"

text \<open>
  The \<^verbatim>\<open>result\<close> object of a \<^verbatim>\<open>tools/call\<close> response: its \<^verbatim>\<open>content\<close> array when it
  has one, and the text \<^verbatim>\<open>JSON.stringify\<close> prints for it.
\<close>

record tool_result =
  tr_content :: "item list option"
  tr_json :: jstring

datatype block =
    TextBlock jstring
  | ToolUse (tu_id: jstring) (tu_name: jstring) (tu_input: args)

record tool_result_entry =
  tool_use_id :: jstring
  tre_content :: "item list"
  is_error :: bool

datatype role = User | Assistant

datatype msg_content =
    Prompt jstring
  | Blocks "block list"
  | Results "tool_result_entry list"

record message =
  role :: role
  content :: msg_content

record locatorInfo =
  tool :: jstring
  timestamp :: time
  locator :: "jsval option"
  action :: "jstring option"
  element :: "jstring option"
  success :: bool

record interaction_context =
  currentUrl :: jsval
  lastScreenshot :: "time option"
  browserState :: jstring
  completedActions :: "jsval list"

text \<open>\<^verbatim>\<open>contextUpdates\<close>: an object that starts empty; \<open>None\<close> is a key not set.\<close>

record contextUpdates =
  cu_currentUrl :: "jsval option"
  cu_browserState :: "jstring option"
  cu_lastScreenshot :: "time option"

text \<open>\<^verbatim>\<open>{...session.context, ...result.context}\<close>\<close>

definition spread_context :: "interaction_context \<Rightarrow> contextUpdates \<Rightarrow> interaction_context" where
  "spread_context c u =
     c\<lparr>currentUrl := (case cu_currentUrl u of None \<Rightarrow> currentUrl c | Some v \<Rightarrow> v),
       browserState := (case cu_browserState u of None \<Rightarrow> browserState c | Some v \<Rightarrow> v),
       lastScreenshot := (case cu_lastScreenshot u of None \<Rightarrow> lastScreenshot c | Some t \<Rightarrow> Some t)\<rparr>"

section \<open>SessionManager\<close>

record session =
  sid :: jstring
  createdAt :: time
  lastActivity :: time
  messages :: "message list"
  sessionContext :: interaction_context
  locatorHistory :: "locatorInfo list"
  totalSteps :: nat

text \<open>
  \<^verbatim>\<open>this.sessions\<close> is a JavaScript \<^verbatim>\<open>Map\<close>: an association list in insertion order,
  where setting a key that is present keeps its place. \<open>timers\<close> are the callbacks
  \<^verbatim>\<open>scheduleCleanup\<close> has handed to \<^verbatim>\<open>setTimeout\<close> and that have not fired: the delay
  and the session id the closure holds.
\<close>

record sessionManager =
  sessions :: "(jstring \<times> session) list"
  sessionTimeout :: int
  timers :: "(int \<times> jstring) list"

definition SessionManager_new :: sessionManager where
  "SessionManager_new = \<lparr>sessions = [], sessionTimeout = 30 * 60 * 1000, timers = []\<rparr>"

definition scheduleCleanup :: "sessionManager \<Rightarrow> jstring \<Rightarrow> sessionManager" where
  "scheduleCleanup sm i = sm\<lparr>timers := timers sm @ [(sessionTimeout sm, i)]\<rparr>"

text \<open>
  The callback of \<^verbatim>\<open>scheduleCleanup\<close>, run when its timer fires at time \<open>now\<close>: the
  timer leaves the pending ones, and the session is deleted when it is there and idle for
  more than the timeout.
\<close>

definition cleanup_fires :: "sessionManager \<Rightarrow> jstring \<Rightarrow> time \<Rightarrow> sessionManager" where
  "cleanup_fires sm i now =
     (let sm1 = sm\<lparr>timers := remove1 (sessionTimeout sm, i) (timers sm)\<rparr> in
      case map_of (sessions sm) i of
        None \<Rightarrow> sm1
      | Some s \<Rightarrow>
          if now - lastActivity s > sessionTimeout sm
          then sm1\<lparr>sessions := AList.delete i (sessions sm)\<rparr>
          else sm1)"

text \<open>
  \<^verbatim>\<open>createSession\<close> is only ever called without an argument, so the id is the
  \<^verbatim>\<open>uuidv4()\<close> drawn, passed here with the two readings of the clock.
\<close>

definition new_session :: "jstring \<Rightarrow> time \<Rightarrow> time \<Rightarrow> session" where
  "new_session i t_created t_activity =
     \<lparr>sid = i, createdAt = t_created, lastActivity = t_activity, messages = [],
      sessionContext = \<lparr>currentUrl = JNull, lastScreenshot = None,
                        browserState = (lit ''closed''), completedActions = []\<rparr>,
      locatorHistory = [], totalSteps = 0\<rparr>"

definition createSession :: "sessionManager \<Rightarrow> jstring \<Rightarrow> time \<Rightarrow> time \<Rightarrow> session \<times> sessionManager" where
  "createSession sm i t_created t_activity =
     (let s = new_session i t_created t_activity;
          sm1 = sm\<lparr>sessions := AList.update i s (sessions sm)\<rparr>
      in (s, scheduleCleanup sm1 i))"

definition getSession :: "sessionManager \<Rightarrow> jstring \<Rightarrow> time \<Rightarrow> session option \<times> sessionManager" where
  "getSession sm i now =
     (case map_of (sessions sm) i of
        Some s \<Rightarrow>
          (let s1 = s\<lparr>lastActivity := now\<rparr>
           in (Some s1, sm\<lparr>sessions := AList.update i s1 (sessions sm)\<rparr>))
      | None \<Rightarrow> (None, sm))"

text \<open>The patch of \<^verbatim>\<open>updateSession\<close>: the keys the object given to \<^verbatim>\<open>Object.assign\<close> has.\<close>

record updates =
  u_locatorHistory :: "locatorInfo list option"
  u_totalSteps :: "nat option"
  u_context :: "interaction_context option"

definition assign :: "session \<Rightarrow> updates \<Rightarrow> session" where
  "assign s u =
     s\<lparr>locatorHistory := (case u_locatorHistory u of None \<Rightarrow> locatorHistory s | Some l \<Rightarrow> l),
       totalSteps := (case u_totalSteps u of None \<Rightarrow> totalSteps s | Some n \<Rightarrow> n),
       sessionContext := (case u_context u of None \<Rightarrow> sessionContext s | Some c \<Rightarrow> c)\<rparr>"

definition updateSession :: "sessionManager \<Rightarrow> jstring \<Rightarrow> updates \<Rightarrow> time \<Rightarrow> session option \<times> sessionManager" where
  "updateSession sm i u now =
     (case map_of (sessions sm) i of
        Some s \<Rightarrow>
          (let s1 = (assign s u)\<lparr>lastActivity := now\<rparr>
           in (Some s1, sm\<lparr>sessions := AList.update i s1 (sessions sm)\<rparr>))
      | None \<Rightarrow> (None, sm))"

definition deleteSession :: "sessionManager \<Rightarrow> jstring \<Rightarrow> bool \<times> sessionManager" where
  "deleteSession sm i =
     (map_of (sessions sm) i \<noteq> None, sm\<lparr>sessions := AList.delete i (sessions sm)\<rparr>)"

record sessionSummary =
  ss_id :: jstring
  ss_createdAt :: time
  ss_lastActivity :: time
  ss_messageCount :: nat
  ss_totalSteps :: nat
  ss_browserState :: jstring
  ss_currentUrl :: jsval

definition getAllSessions :: "sessionManager \<Rightarrow> sessionSummary list" where
  "getAllSessions sm =
     map (\<lambda>(k, s). \<lparr>ss_id = sid s, ss_createdAt = createdAt s, ss_lastActivity = lastActivity s,
                    ss_messageCount = length (messages s), ss_totalSteps = totalSteps s,
                    ss_browserState = browserState (sessionContext s),
                    ss_currentUrl = currentUrl (sessionContext s)\<rparr>)
         (sessions sm)"

section \<open>APIServer: the collaborators\<close>

record tool_descr =
  name :: jstring
  description :: jstring
  server :: jstring
  originalName :: jstring

record apiServer =
  availableTools :: "tool_descr list"
  mcpServers :: "jstring \<rightharpoonup> nat"

record mcp_request =
  rq_id :: time
  rq_method :: jstring
  rq_name :: jstring
  rq_arguments :: args

record mcp_error =
  err_message :: "jstring option"

record mcp_response =
  rs_result :: "tool_result option"
  rs_error :: "mcp_error option"

text \<open>What a \<^verbatim>\<open>catch\<close> sees of a thrown error: \<^verbatim>\<open>error.status\<close> and \<^verbatim>\<open>error.message\<close>.\<close>

record js_error =
  status :: "int option"
  message :: jstring

text \<open>
  Everything outside the file is a parameter, over a state \<open>'w\<close> of the outside world
  that each call may change:
  \<^item> \<open>messages_create\<close> is \<^verbatim>\<open>this.anthropic.messages.create\<close>; it is given the session
    the system prompt is printed from, the tool list and the messages, and it throws
    (\<open>Inl\<close>) or returns \<^verbatim>\<open>response.content\<close>;
  \<^item> \<open>sendMCPRequest\<close> is the promise of \<^verbatim>\<open>sendMCPRequest\<close> as \<^verbatim>\<open>callTool\<close> awaits it:
    rejected with an \<^verbatim>\<open>Error\<close> of that message (\<open>Inl\<close>) or resolved with a response;
  \<^item> \<open>Date_now\<close> reads the clock, \<open>sleep\<close> awaits a timer of so many milliseconds,
    \<open>uuidv4\<close> draws an id;
  \<^item> \<open>js_String\<close> prints a value that is not a string inside a template literal, and
    \<open>match_found_element\<close> is the first group of
    \<^verbatim>\<open>/Found element[:\s]+(.+?)(?:\n|$)/i\<close> when the text matches.
\<close>

record 'w env =
  messages_create :: "'w \<Rightarrow> session \<Rightarrow> tool_descr list \<Rightarrow> message list \<Rightarrow> (js_error + block list) \<times> 'w"
  sendMCPRequest :: "'w \<Rightarrow> nat \<Rightarrow> mcp_request \<Rightarrow> (jstring + mcp_response) \<times> 'w"
  Date_now :: "'w \<Rightarrow> time \<times> 'w"
  sleep :: "nat \<Rightarrow> 'w \<Rightarrow> 'w"
  uuidv4 :: "'w \<Rightarrow> jstring \<times> 'w"
  js_String :: "jsval \<Rightarrow> jstring"
  match_found_element :: "jstring \<Rightarrow> jstring option"

definition dquote :: jstring where
  "dquote = [34]"

text \<open>\<^verbatim>\<open>${v}\<close> in a template literal.\<close>

fun template :: "'w env \<Rightarrow> jsval option \<Rightarrow> jstring" where
  "template env None = (lit ''undefined'')"
| "template env (Some (JStr s)) = s"
| "template env (Some v) = js_String env v"

section \<open>extractLocatorInfo\<close>

text \<open>The caller reads the clock for \<^verbatim>\<open>new Date().toISOString()\<close> and passes it as \<open>now\<close>.\<close>

definition text_of_content :: "item list \<Rightarrow> jstring" where
  "text_of_content c =
     (case find (\<lambda>i. itype i = (lit ''text'')) c of
        None \<Rightarrow> []
      | Some i \<Rightarrow> (case itext i of None \<Rightarrow> [] | Some t \<Rightarrow> t))"

definition select_locator :: "'w env \<Rightarrow> args \<Rightarrow> jsval option" where
  "select_locator env toolArgs =
     (if truthy_opt (toolArgs (lit ''selector'')) then toolArgs (lit ''selector'')
      else if truthy_opt (toolArgs (lit ''locator'')) then toolArgs (lit ''locator'')
      else if truthy_opt (toolArgs (lit ''text''))
        then Some (JStr ((lit ''text='') @ dquote @ template env (toolArgs (lit ''text'')) @ dquote))
      else if truthy_opt (toolArgs (lit ''role'')) \<and> truthy_opt (toolArgs (lit ''name''))
        then Some (JStr ((lit ''role='') @ template env (toolArgs (lit ''role'')) @ (lit ''[name='') @ dquote
                         @ template env (toolArgs (lit ''name'')) @ dquote @ (lit '']'')))
      else None)"

definition inspect_result :: "'w env \<Rightarrow> tool_result option \<Rightarrow> locatorInfo \<Rightarrow> locatorInfo" where
  "inspect_result env toolResult info =
     (case toolResult of
        None \<Rightarrow> info
      | Some r \<Rightarrow>
          (case tr_content r of
             None \<Rightarrow> info
           | Some c \<Rightarrow>
               (let textContent = text_of_content c;
                    info1 = (case match_found_element env textContent of
                               None \<Rightarrow> info
                             | Some g \<Rightarrow> info\<lparr>element := Some (trim g)\<rparr>)
                in if str_includes textContent (lit ''error'') \<or> str_includes textContent (lit ''failed'')
                      \<or> str_includes textContent (lit ''not found'')
                   then info1\<lparr>success := False\<rparr> else info1)))"

definition extractLocatorInfo ::
  "'w env \<Rightarrow> time \<Rightarrow> jstring \<Rightarrow> args \<Rightarrow> tool_result option \<Rightarrow> locatorInfo" where
  "extractLocatorInfo env now toolName toolArgs toolResult =
     (let locatorInfo = \<lparr>tool = toolName, timestamp = now, locator = None, action = None,
                         element = None, success = True\<rparr>
      in if str_includes toolName (lit ''playwright_'')
         then inspect_result env toolResult
                (locatorInfo\<lparr>action := Some (replace_first toolName (lit ''playwright_'')),
                             locator := select_locator env toolArgs\<rparr>)
         else locatorInfo)"

section \<open>callTool\<close>

definition default_result :: tool_result where
  "default_result =
     \<lparr>tr_content = Some [\<lparr>itype = (lit ''text''), itext = Some (lit ''Tool executed successfully'')\<rparr>],
      tr_json = (lit ''{'') @ dquote @ (lit ''content'') @ dquote @ (lit '':[{'') @ dquote @ (lit ''type'') @ dquote @ (lit '':'')
                @ dquote @ (lit ''text'') @ dquote @ (lit '','') @ dquote @ (lit ''text'') @ dquote @ (lit '':'') @ dquote
                @ (lit ''Tool executed successfully'') @ dquote @ (lit ''}]}'')\<rparr>"

definition error_message :: "mcp_error \<Rightarrow> jstring" where
  "error_message e =
     (case err_message e of
        None \<Rightarrow> (lit ''Tool execution failed'')
      | Some m \<Rightarrow> if m \<noteq> [] then m else (lit ''Tool execution failed''))"

definition callTool ::
  "'w env \<Rightarrow> apiServer \<Rightarrow> jstring \<Rightarrow> args \<Rightarrow> 'w \<Rightarrow> (jstring + tool_result) \<times> 'w" where
  "callTool env api fullName a w =
     (case find (\<lambda>t. name t = fullName) (availableTools api) of
        None \<Rightarrow> (Inl ((lit ''Unknown tool: '') @ fullName), w)
      | Some t \<Rightarrow>
          (case mcpServers api (server t) of
             None \<Rightarrow> (Inl ((lit ''Unknown server: '') @ server t), w)
           | Some srv \<Rightarrow>
               (case Date_now env w of
                  (now, w1) \<Rightarrow>
                    (case sendMCPRequest env w1 srv
                            \<lparr>rq_id = now, rq_method = (lit ''tools/call''), rq_name = originalName t,
                             rq_arguments = a\<rparr> of
                       (Inl msg, w2) \<Rightarrow> (Inl msg, w2)
                     | (Inr response, w2) \<Rightarrow>
                         (case rs_result response of
                            Some r \<Rightarrow> (Inr r, w2)
                          | None \<Rightarrow>
                              (case rs_error response of
                                 Some e \<Rightarrow> (Inl (error_message e), w2)
                               | None \<Rightarrow> (Inr default_result, w2)))))))"

section \<open>processPromptWithMCP\<close>

text \<open>
  The body of \<^verbatim>\<open>for (const toolUse of toolUses)\<close>: the \<^verbatim>\<open>try\<close> branch when \<^verbatim>\<open>callTool\<close>
  returns, the \<^verbatim>\<open>catch\<close> branch when it throws. \<^verbatim>\<open>callTool\<close> returns an object, so the
  last branch of \<^verbatim>\<open>toolContent\<close> (a falsy result) is never taken.
\<close>

type_synonym tool_acc = "tool_result_entry list \<times> locatorInfo list \<times> contextUpdates"

definition push_locator :: "locatorInfo \<Rightarrow> locatorInfo list \<Rightarrow> locatorInfo list" where
  "push_locator info h = (if truthy_opt (locator info) then h @ [info] else h)"

definition toolContent :: "tool_result \<Rightarrow> item list" where
  "toolContent r =
     (case tr_content r of
        Some c \<Rightarrow> c
      | None \<Rightarrow> [\<lparr>itype = (lit ''text''), itext = Some (tr_json r)\<rparr>])"

definition error_entry :: "jstring \<Rightarrow> jstring \<Rightarrow> tool_result_entry" where
  "error_entry i msg =
     \<lparr>tool_use_id = i,
      tre_content = [\<lparr>itype = (lit ''text''),
                      itext = Some ((lit ''Error: '') @ msg
                                    @ (lit ''. Please try alternative approaches or selectors.''))\<rparr>],
      is_error = True\<rparr>"

definition executeToolUse ::
  "'w env \<Rightarrow> apiServer \<Rightarrow> block \<Rightarrow> tool_acc \<Rightarrow> 'w \<Rightarrow> tool_acc \<times> 'w" where
  "executeToolUse env api toolUse acc w =
     (case acc of
        (toolResults, hist, cu) \<Rightarrow>
          (case callTool env api (tu_name toolUse) (tu_input toolUse) w of
             (Inr r, w1) \<Rightarrow>
               (case Date_now env w1 of
                  (t1, w2) \<Rightarrow>
                    (let locatorInfo = extractLocatorInfo env t1 (tu_name toolUse)
                                         (tu_input toolUse) (Some r);
                         h1 = push_locator locatorInfo hist;
                         cu1 = (if tu_name toolUse = (lit ''playwright_playwright_navigate'')
                                   \<and> truthy_opt (tu_input toolUse (lit ''url''))
                                then cu\<lparr>cu_currentUrl := tu_input toolUse (lit ''url''),
                                        cu_browserState := Some (lit ''open'')\<rparr>
                                else cu);
                         entry = \<lparr>tool_use_id = tu_id toolUse, tre_content = toolContent r,
                                  is_error = False\<rparr>
                     in if tu_name toolUse = (lit ''playwright_playwright_screenshot'')
                        then (case Date_now env w2 of
                                (t2, w3) \<Rightarrow>
                                  ((toolResults @ [entry], h1,
                                    cu1\<lparr>cu_lastScreenshot := Some t2\<rparr>), w3))
                        else ((toolResults @ [entry], h1, cu1), w2)))
           | (Inl msg, w1) \<Rightarrow>
               (case Date_now env w1 of
                  (t1, w2) \<Rightarrow>
                    (let locatorInfo = (extractLocatorInfo env t1 (tu_name toolUse)
                                          (tu_input toolUse) None)\<lparr>success := False\<rparr>
                     in ((toolResults @ [error_entry (tu_id toolUse) msg],
                          push_locator locatorInfo hist, cu), w2)))))"

fun executeTools ::
  "'w env \<Rightarrow> apiServer \<Rightarrow> block list \<Rightarrow> tool_acc \<Rightarrow> 'w \<Rightarrow> tool_acc \<times> 'w" where
  "executeTools env api [] acc w = (acc, w)"
| "executeTools env api (toolUse # rest) acc w =
     (case executeToolUse env api toolUse acc w of
        (acc1, w1) \<Rightarrow> executeTools env api rest acc1 w1)"

fun is_text :: "block \<Rightarrow> bool" where
  "is_text (TextBlock t) = True"
| "is_text (ToolUse i n a) = False"

fun is_tool_use :: "block \<Rightarrow> bool" where
  "is_tool_use (TextBlock t) = False"
| "is_tool_use (ToolUse i n a) = True"

fun block_text :: "block \<Rightarrow> jstring" where
  "block_text (TextBlock t) = t"
| "block_text (ToolUse i n a) = []"

text \<open>\<^verbatim>\<open>xs.join(sep)\<close>\<close>

fun join :: "jstring \<Rightarrow> jstring list \<Rightarrow> jstring" where
  "join sep [] = []"
| "join sep [x] = x"
| "join sep (x # y # ys) = x @ sep @ join sep (y # ys)"

definition responseText :: "block list \<Rightarrow> jstring" where
  "responseText c = join [10] (map block_text (filter is_text c))"

text \<open>The variables of the inner \<^verbatim>\<open>while\<close> loop.\<close>

record loop_state =
  l_messages :: "message list"
  conversationComplete :: bool
  iteration :: nat
  finalResult :: jstring
  l_locatorHistory :: "locatorInfo list"
  l_contextUpdates :: contextUpdates

definition maxIterations :: nat where
  "maxIterations = 20"

definition maxRetries :: nat where
  "maxRetries = 3"

definition append_text :: "jstring \<Rightarrow> jstring \<Rightarrow> jstring" where
  "append_text acc t =
     (if t \<noteq> [] then acc @ (if acc \<noteq> [] then [10, 10] else []) @ t else acc)"

text \<open>
  The inner \<^verbatim>\<open>while (!conversationComplete && iteration < maxIterations)\<close>. \<open>Inl\<close> is
  the error \<^verbatim>\<open>messages.create\<close> threw, which leaves the loop for the outer \<^verbatim>\<open>catch\<close>.
\<close>

function conversation ::
  "'w env \<Rightarrow> apiServer \<Rightarrow> session \<Rightarrow> loop_state \<Rightarrow> 'w \<Rightarrow> (js_error + loop_state) \<times> 'w" where
  "conversation env api session st w =
     (if \<not> conversationComplete st \<and> iteration st < maxIterations then
        (case messages_create env w session (availableTools api) (l_messages st) of
           (Inl err, w1) \<Rightarrow> (Inl err, w1)
         | (Inr c, w1) \<Rightarrow>
             (let st1 = st\<lparr>iteration := iteration st + 1,
                          finalResult := append_text (finalResult st) (responseText c),
                          l_messages := l_messages st @ [\<lparr>role = Assistant, content = Blocks c\<rparr>]\<rparr>;
                  toolUses = filter is_tool_use c
              in if toolUses \<noteq> [] then
                   (case executeTools env api toolUses
                           ([], l_locatorHistory st1, l_contextUpdates st1) w1 of
                      ((toolResults, h, cu), w2) \<Rightarrow>
                        conversation env api session
                          (st1\<lparr>l_locatorHistory := h, l_contextUpdates := cu,
                                l_messages := l_messages st1
                                  @ [\<lparr>role = User, content = Results toolResults\<rparr>]\<rparr>) w2)
                 else conversation env api session (st1\<lparr>conversationComplete := True\<rparr>) w1))
      else (Inr st, w))"
  by pat_completeness auto
termination
  by (relation "measure (\<lambda>(env, api, session, st, w). maxIterations - iteration st)")
     (auto simp: maxIterations_def)

text \<open>Whether the loop enters its body, and the state after a reply of the model is folded in.\<close>

definition running :: "loop_state \<Rightarrow> bool" where
  "running st = (\<not> conversationComplete st \<and> iteration st < maxIterations)"

definition replied :: "loop_state \<Rightarrow> block list \<Rightarrow> loop_state" where
  "replied st c =
     st\<lparr>iteration := iteration st + 1,
        finalResult := append_text (finalResult st) (responseText c),
        l_messages := l_messages st @ [\<lparr>role = Assistant, content = Blocks c\<rparr>]\<rparr>"

record prompt_result =
  response :: jstring
  locators :: "locatorInfo list"
  r_totalSteps :: nat
  r_context :: contextUpdates
  r_success :: bool

text \<open>
  How a call of \<^verbatim>\<open>processPromptWithMCP\<close> ends: it returns the result object, it throws, or
  it leaves the \<^verbatim>\<open>while (retryCount < maxRetries)\<close> loop and returns \<^verbatim>\<open>undefined\<close>.
\<close>

datatype outcome = Returned prompt_result | Threw js_error | ReturnedUndefined

definition initial_loop_state :: "session \<Rightarrow> jstring \<Rightarrow> loop_state" where
  "initial_loop_state session msg =
     \<lparr>l_messages = messages session @ [\<lparr>role = User, content = Prompt msg\<rparr>],
      conversationComplete = False, iteration = 0, finalResult = [],
      l_locatorHistory = [],
      l_contextUpdates = \<lparr>cu_currentUrl = None, cu_browserState = None,
                           cu_lastScreenshot = None\<rparr>\<rparr>"

definition result_of :: "loop_state \<Rightarrow> prompt_result" where
  "result_of st =
     \<lparr>response = (if finalResult st \<noteq> [] then finalResult st else (lit ''Task completed successfully'')),
      locators = l_locatorHistory st, r_totalSteps = iteration st,
      r_context = l_contextUpdates st, r_success = True\<rparr>"

text \<open>
  The outer retry loop from a given \<open>retryCount\<close>. The result is how the call ends, the
  session (its \<^verbatim>\<open>messages\<close> assigned on success), the delays awaited in order, in
  milliseconds, and the world.
\<close>

function retry_loop ::
  "'w env \<Rightarrow> apiServer \<Rightarrow> jstring \<Rightarrow> session \<Rightarrow> nat \<Rightarrow> nat list \<Rightarrow> 'w
     \<Rightarrow> outcome \<times> session \<times> nat list \<times> 'w" where
  "retry_loop env api msg session retryCount delays w =
     (if retryCount < maxRetries then
        (case conversation env api session (initial_loop_state session msg) w of
           (Inr st, w1) \<Rightarrow>
             (Returned (result_of st), session\<lparr>messages := l_messages st\<rparr>, delays, w1)
         | (Inl err, w1) \<Rightarrow>
             (if status err = Some 529 then
                retry_loop env api msg session (retryCount + 1)
                  (delays @ [(retryCount + 1) * 2000]) (sleep env ((retryCount + 1) * 2000) w1)
              else if retryCount + 1 \<ge> maxRetries then (Threw err, session, delays, w1)
              else retry_loop env api msg session (retryCount + 1)
                     (delays @ [1000]) (sleep env 1000 w1)))
      else (ReturnedUndefined, session, delays, w))"
  by pat_completeness auto
termination
  by (relation "measure (\<lambda>(env, api, msg, session, retryCount, delays, w). maxRetries - retryCount)")
     (auto simp: maxRetries_def)

definition processPromptWithMCP ::
  "'w env \<Rightarrow> apiServer \<Rightarrow> jstring \<Rightarrow> session \<Rightarrow> 'w \<Rightarrow> outcome \<times> session \<times> nat list \<times> 'w" where
  "processPromptWithMCP env api msg session w = retry_loop env api msg session 0 [] w"

section \<open>The route POST /api/prompt\<close>

record prompt_body =
  prompt :: "jsval option"
  sessionId :: "jsval option"
  continueSession :: "jsval option"

record sessionInfo =
  si_totalSteps :: nat
  si_totalLocators :: nat
  si_sessionAge :: int

datatype reply =
    Json200 prompt_result jstring sessionInfo
  | Status400 jstring
  | Status404 jstring
  | Status500 jstring

text \<open>
  The session the handler works on. A key of \<^verbatim>\<open>this.sessions\<close> is always a string, so
  \<^verbatim>\<open>sessions.get\<close> of another value finds nothing. The clock is read by \<^verbatim>\<open>getSession\<close>
  only when the session is there.
\<close>

definition lookup_key :: "sessionManager \<Rightarrow> jsval option \<Rightarrow> (jstring \<times> session) option" where
  "lookup_key sm k =
     (case k of
        Some (JStr i) \<Rightarrow> (case map_of (sessions sm) i of None \<Rightarrow> None | Some s \<Rightarrow> Some (i, s))
      | _ \<Rightarrow> None)"

definition resolve_session ::
  "'w env \<Rightarrow> sessionManager \<Rightarrow> prompt_body \<Rightarrow> 'w \<Rightarrow> session option \<times> sessionManager \<times> 'w" where
  "resolve_session env sm body w =
     (if truthy_opt (sessionId body) \<and> truthy_opt (continueSession body) then
        (case lookup_key sm (sessionId body) of
           None \<Rightarrow> (None, sm, w)
         | Some (i, s) \<Rightarrow>
             (case Date_now env w of
                (now, w1) \<Rightarrow> (case getSession sm i now of (r, sm1) \<Rightarrow> (r, sm1, w1))))
      else
        (case uuidv4 env w of
           (i, w1) \<Rightarrow>
             (case Date_now env w1 of
                (t1, w2) \<Rightarrow>
                  (case Date_now env w2 of
                     (t2, w3) \<Rightarrow>
                       (case createSession sm i t1 t2 of (s, sm1) \<Rightarrow> (Some s, sm1, w3))))))"

text \<open>
  After \<^verbatim>\<open>processPromptWithMCP\<close> has returned a result: the session object, whose
  \<^verbatim>\<open>messages\<close> it has assigned, is the one the map holds; then \<^verbatim>\<open>updateSession\<close> and
  the reply. The argument of \<^verbatim>\<open>updateSession\<close> is built from the session as it is before
  the call. \<^verbatim>\<open>Object.assign\<close> then writes into that same object, so \<^verbatim>\<open>sessionInfo\<close> is
  computed from the session as \<^verbatim>\<open>updateSession\<close> has left it (\<open>after\<close>), and adds
  \<^verbatim>\<open>result.totalSteps\<close> and the number of \<^verbatim>\<open>result.locators\<close> to it once more.
\<close>

definition commit_result ::
  "'w env \<Rightarrow> sessionManager \<Rightarrow> session \<Rightarrow> prompt_result \<Rightarrow> 'w \<Rightarrow> reply \<times> sessionManager \<times> 'w" where
  "commit_result env sm s r w =
     (let sm1 = sm\<lparr>sessions := AList.update (sid s) s (sessions sm)\<rparr>;
          u = \<lparr>u_locatorHistory = Some (locatorHistory s @ locators r),
               u_totalSteps = Some (totalSteps s + r_totalSteps r),
               u_context = Some (spread_context (sessionContext s) (r_context r))\<rparr>
      in case Date_now env w of
           (now, w1) \<Rightarrow>
             (case updateSession sm1 (sid s) u now of
                (x, sm2) \<Rightarrow>
                  (let after = (case x of Some s2 \<Rightarrow> s2 | None \<Rightarrow> s) in
                   case Date_now env w1 of
                     (now2, w2) \<Rightarrow>
                       (Json200 r (sid after)
                          \<lparr>si_totalSteps = totalSteps after + r_totalSteps r,
                           si_totalLocators = length (locatorHistory after) + length (locators r),
                           si_sessionAge = now2 - createdAt after\<rparr>, sm2, w2))))"

text \<open>
  The handler. A prompt that is truthy and not a string has no \<^verbatim>\<open>trim\<close>: the
  \<^verbatim>\<open>TypeError\<close> is caught and answered with 500, as is the \<^verbatim>\<open>TypeError\<close> of
  \<^verbatim>\<open>result.locators\<close> when \<^verbatim>\<open>processPromptWithMCP\<close> has returned \<^verbatim>\<open>undefined\<close>, which
  is thrown while the argument of \<^verbatim>\<open>updateSession\<close> is built.
\<close>

definition run_prompt ::
  "'w env \<Rightarrow> apiServer \<Rightarrow> sessionManager \<Rightarrow> jstring \<Rightarrow> prompt_body \<Rightarrow> 'w
     \<Rightarrow> reply \<times> sessionManager \<times> 'w" where
  "run_prompt env api sm p body w =
     (case resolve_session env sm body w of
        (None, sm1, w1) \<Rightarrow> (Status404 (lit ''Session not found''), sm1, w1)
      | (Some s, sm1, w1) \<Rightarrow>
          (case processPromptWithMCP env api p s w1 of
             (Returned r, s1, delays, w2) \<Rightarrow> commit_result env sm1 s1 r w2
           | (Threw e, s1, delays, w2) \<Rightarrow> (Status500 (lit ''Internal server error''), sm1, w2)
           | (ReturnedUndefined, s1, delays, w2) \<Rightarrow>
               (Status500 (lit ''Internal server error''), sm1, w2)))"

definition post_prompt ::
  "'w env \<Rightarrow> apiServer \<Rightarrow> sessionManager \<Rightarrow> prompt_body \<Rightarrow> 'w \<Rightarrow> reply \<times> sessionManager \<times> 'w" where
  "post_prompt env api sm body w =
     (if \<not> truthy_opt (prompt body) then (Status400 (lit ''Prompt is required''), sm, w)
      else
        (case prompt body of
           Some (JStr p) \<Rightarrow>
             (if trim p = [] then (Status400 (lit ''Prompt is required''), sm, w)
              else run_prompt env api sm p body w)
         | _ \<Rightarrow> (Status500 (lit ''Internal server error''), sm, w)))"

section \<open>sendMCPRequest: the listener on the server's output\<close>

text \<open>
  \<^verbatim>\<open>JSON.parse\<close> is a parameter: \<open>None\<close> when it throws (or gives \<^verbatim>\<open>null\<close>, whose
  \<^verbatim>\<open>id\<close> cannot be read: both land in the empty \<^verbatim>\<open>catch\<close>), else the \<^verbatim>\<open>id\<close> of the
  value and the value's text.
\<close>

record rpc =
  rpc_id :: "jsval option"
  rpc_body :: jstring

type_synonym parser = "jstring \<Rightarrow> rpc option"

text \<open>\<^verbatim>\<open>s.split('\n')\<close>: never empty; the last piece is what follows the last newline.\<close>

fun split_nl :: "jstring \<Rightarrow> jstring list" where
  "split_nl [] = [[]]"
| "split_nl (c # cs) =
     (if c = 10 then [] # split_nl cs
      else (case split_nl cs of [] \<Rightarrow> [[c]] | l # ls \<Rightarrow> (c # l) # ls))"

text \<open>The \<^verbatim>\<open>for\<close> loop over the complete lines; \<open>Some\<close> is the response it resolves with.\<close>

fun scan_lines :: "parser \<Rightarrow> int \<Rightarrow> jstring list \<Rightarrow> rpc option" where
  "scan_lines parse request_id [] = None"
| "scan_lines parse request_id (l # ls) =
     (let line = trim l in
      if line \<noteq> [] then
        (case parse line of
           Some r \<Rightarrow> if rpc_id r = Some (JNum request_id) then Some r
                     else scan_lines parse request_id ls
         | None \<Rightarrow> scan_lines parse request_id ls)
      else scan_lines parse request_id ls)"

definition dataHandler :: "parser \<Rightarrow> int \<Rightarrow> jstring \<Rightarrow> jstring \<Rightarrow> rpc option \<times> jstring" where
  "dataHandler parse request_id buffer data =
     (let responseBuffer = buffer @ data;
          lines = split_nl responseBuffer
      in case scan_lines parse request_id (butlast lines) of
           Some r \<Rightarrow> (Some r, responseBuffer)
         | None \<Rightarrow> (None, last lines))"

text \<open>
  The listeners registered on one server's \<^verbatim>\<open>stdout\<close>, in the order of registration: one
  for each request that has not resolved, with the caller it belongs to, the id of its
  request and its own buffer. \<open>issue\<close> is a \<^verbatim>\<open>callTool\<close> that reads the clock as \<open>now\<close>:
  the id of its request is \<^verbatim>\<open>Date.now()\<close>. \<open>emit_data\<close> is one \<^verbatim>\<open>data\<close> event, handed
  to every listener; the ones that resolve are removed. The 45 second timer is not part of
  this model.
\<close>

record pending =
  caller :: nat
  request_id :: int
  responseBuffer :: jstring

definition issue :: "pending list \<Rightarrow> nat \<Rightarrow> time \<Rightarrow> pending list" where
  "issue ps c now = ps @ [\<lparr>caller = c, request_id = now, responseBuffer = []\<rparr>]"

fun emit_data :: "parser \<Rightarrow> pending list \<Rightarrow> jstring \<Rightarrow> (nat \<times> rpc) list \<times> pending list" where
  "emit_data parse [] data = ([], [])"
| "emit_data parse (p # ps) data =
     (case emit_data parse ps data of
        (rs, qs) \<Rightarrow>
          (case dataHandler parse (request_id p) (responseBuffer p) data of
             (Some r, b) \<Rightarrow> ((caller p, r) # rs, qs)
           | (None, b) \<Rightarrow> (rs, p\<lparr>responseBuffer := b\<rparr> # qs)))"

datatype event = Issue nat time | Data jstring

text \<open>The resolutions so far, as (caller, response), and the listeners left.\<close>

fun bridge_run ::
  "parser \<Rightarrow> (nat \<times> rpc) list \<times> pending list \<Rightarrow> event list \<Rightarrow> (nat \<times> rpc) list \<times> pending list" where
  "bridge_run parse st [] = st"
| "bridge_run parse (done, ps) (Issue c now # es) = bridge_run parse (done, issue ps c now) es"
| "bridge_run parse (done, ps) (Data d # es) =
     (case emit_data parse ps d of (rs, qs) \<Rightarrow> bridge_run parse (done @ rs, qs) es)"

section \<open>Operations on the session store, and the states they reach\<close>

definition key_is_id :: "sessionManager \<Rightarrow> bool" where
  "key_is_id sm = (\<forall>(k, s) \<in> set (sessions sm). sid s = k)"

definition is_assistant :: "message \<Rightarrow> bool" where
  "is_assistant m = (role m = Assistant)"

text \<open>The replies of the model in a history: each query that returned appended one.\<close>

definition model_replies :: "message list \<Rightarrow> nat" where
  "model_replies ms = length (filter is_assistant ms)"

definition steps_are_replies :: "sessionManager \<Rightarrow> bool" where
  "steps_are_replies sm = (\<forall>(k, s) \<in> set (sessions sm). totalSteps s = model_replies (messages s))"

definition store_ok :: "sessionManager \<Rightarrow> bool" where
  "store_ok sm = (key_is_id sm \<and> steps_are_replies sm)"

text \<open>
  The session managers the server can be in, its requests handled one after the other:
  the constructor, then the routes that create, read and delete sessions, the cleanup
  timers, and the prompt route.
\<close>

inductive reachable :: "'w env \<Rightarrow> apiServer \<Rightarrow> sessionManager \<Rightarrow> bool" for env :: "'w env" and api :: apiServer where
  init: "reachable env api SessionManager_new"
| create: "reachable env api sm \<Longrightarrow> reachable env api (snd (createSession sm i t1 t2))"
| get: "reachable env api sm \<Longrightarrow> reachable env api (snd (getSession sm i now))"
| delete: "reachable env api sm \<Longrightarrow> reachable env api (snd (deleteSession sm i))"
| fires: "reachable env api sm \<Longrightarrow> reachable env api (cleanup_fires sm i now)"
| prompt: "reachable env api sm \<Longrightarrow> reachable env api (fst (snd (post_prompt env api sm body w)))"

text \<open>The text the run has accumulated, read off the turns it appended to the history.\<close>

definition msg_text :: "message \<Rightarrow> jstring" where
  "msg_text m = (case content m of Blocks c \<Rightarrow> if role m = Assistant then responseText c else [] | _ \<Rightarrow> [])"

definition accumulated :: "message list \<Rightarrow> jstring" where
  "accumulated ms = foldl append_text [] (map msg_text ms)"

text \<open>The one session the prompt route works on: the one continued, or the one created.\<close>

definition resolved_id :: "'w env \<Rightarrow> prompt_body \<Rightarrow> 'w \<Rightarrow> jstring \<Rightarrow> bool" where
  "resolved_id env body w j =
     (if truthy_opt (sessionId body) \<and> truthy_opt (continueSession body)
      then sessionId body = Some (JStr j)
      else fst (uuidv4 env w) = j)"

section \<open>The run as the specification words it\<close>








text \<open>
  The entry the specification asks for after a tool call: the outcome, success or error,
  tagged with the id of the call. On success it holds the content of the result (the
  printed result when it has no content), on error the message with the advice the code
  adds.
\<close>

definition wrapped_outcome :: "block \<Rightarrow> jstring + tool_result \<Rightarrow> tool_result_entry" where
  "wrapped_outcome tu out =
     (case out of
        Inr r \<Rightarrow>
          \<lparr>tool_use_id = tu_id tu,
           tre_content = (case tr_content r of
                            Some c \<Rightarrow> c
                          | None \<Rightarrow> [\<lparr>itype = lit ''text'', itext = Some (tr_json r)\<rparr>]),
           is_error = False\<rparr>
      | Inl msg \<Rightarrow>
          \<lparr>tool_use_id = tu_id tu,
           tre_content =
             [\<lparr>itype = lit ''text'',
               itext = Some (lit ''Error: '' @ msg
                             @ lit ''. Please try alternative approaches or selectors.'')\<rparr>],
           is_error = True\<rparr>)"

section \<open>Concrete collaborators\<close>

text \<open>
  A model service that answers its \<open>w\<close>-th query with the \<open>w\<close>-th entry of a script and
  with \<open>dflt\<close> after the script; the world is the number of queries so far. Every tool call
  is answered with the text \<^verbatim>\<open>ok\<close>, and the clock stands at 1000.
\<close>

definition ok_response :: mcp_response where
  "ok_response =
     \<lparr>rs_result = Some \<lparr>tr_content = Some [\<lparr>itype = (lit ''text''), itext = Some (lit ''ok'')\<rparr>], tr_json = []\<rparr>,
      rs_error = None\<rparr>"

definition scripted :: "(js_error + block list) list \<Rightarrow> (js_error + block list) \<Rightarrow> nat env" where
  "scripted script dflt =
     \<lparr>messages_create = (\<lambda>w s tl m. (if w < length script then script ! w else dflt, Suc w)),
      sendMCPRequest = (\<lambda>w srv rq. (Inr ok_response, w)),
      Date_now = (\<lambda>w. (1000, w)),
      sleep = (\<lambda>n w. w),
      uuidv4 = (\<lambda>w. ((lit ''u1''), w)),
      js_String = (\<lambda>v. []),
      match_found_element = (\<lambda>t. None)\<rparr>"

definition overloaded_error :: js_error where
  "overloaded_error = \<lparr>status = Some 529, message = (lit ''Overloaded'')\<rparr>"

definition unavailable :: js_error where
  "unavailable = \<lparr>status = Some 500, message = (lit ''Internal error'')\<rparr>"

definition done_reply :: "js_error + block list" where
  "done_reply = Inr [TextBlock (lit ''done'')]"

definition navigate_reply :: "js_error + block list" where
  "navigate_reply =
     Inr [ToolUse (lit ''toolu_1'') (lit ''playwright_playwright_navigate'')
            [(lit ''url'') \<mapsto> JStr (lit ''https://example.com'')]]"

definition two_tools_reply :: "js_error + block list" where
  "two_tools_reply =
     Inr [TextBlock (lit ''Trying two things.''),
          ToolUse (lit ''toolu_a'') (lit ''playwright_missing'') [(lit ''selector'') \<mapsto> JStr (lit ''#gone'')],
          ToolUse (lit ''toolu_b'') (lit ''playwright_playwright_navigate'')
            [(lit ''url'') \<mapsto> JStr (lit ''https://example.com'')]]"

definition no_updates :: contextUpdates where
  "no_updates = \<lparr>cu_currentUrl = None, cu_browserState = None, cu_lastScreenshot = None\<rparr>"

definition api0 :: apiServer where
  "api0 =
     \<lparr>availableTools =
        [\<lparr>name = (lit ''custom_echo''), description = (lit ''Echo back the provided message''),
          server = (lit ''custom''), originalName = (lit ''echo'')\<rparr>,
         \<lparr>name = (lit ''playwright_playwright_navigate''), description = (lit ''Navigate to a URL''),
          server = (lit ''playwright''), originalName = (lit ''playwright_navigate'')\<rparr>],
      mcpServers = [(lit ''custom'') \<mapsto> 1, (lit ''playwright'') \<mapsto> 2]\<rparr>"

definition s0 :: session where
  "s0 = new_session (lit ''u0'') 0 0"

definition sm0 :: sessionManager where
  "sm0 = snd (createSession SessionManager_new (lit ''u0'') 0 0)"

definition new_body :: "jstring \<Rightarrow> prompt_body" where
  "new_body p = \<lparr>prompt = Some (JStr p), sessionId = None, continueSession = None\<rparr>"

text \<open>Two response records with the same id, as the peer writes them, and their parse.\<close>

definition record_of :: "jstring \<Rightarrow> jstring" where
  "record_of r =
     (lit ''{'') @ dquote @ (lit ''id'') @ dquote @ (lit '':1000,'') @ dquote @ (lit ''result'') @ dquote @ (lit '':'')
     @ dquote @ r @ dquote @ (lit ''}'')"

definition parse0 :: parser where
  "parse0 l =
     (if l = record_of (lit ''first'') then Some \<lparr>rpc_id = Some (JNum 1000), rpc_body = (lit ''first'')\<rparr>
      else if l = record_of (lit ''second'') then Some \<lparr>rpc_id = Some (JNum 1000), rpc_body = (lit ''second'')\<rparr>
      else None)"

declare conversation.simps [simp del]
declare retry_loop.simps [simp del]

section \<open>Literals\<close>

lemma lit_Nil [simp]: "lit [] = []"
  by (simp add: lit_def)

lemma lit_eq_iff [simp]: "lit s = lit t \<longleftrightarrow> s = t"
  by (simp add: lit_def inj_map_eq_map inj_def)

lemma lit_eq_Nil [simp]: "lit s = [] \<longleftrightarrow> s = []"
  by (simp add: lit_def)

lemma Nil_eq_lit [simp]: "[] = lit s \<longleftrightarrow> s = []"
  by (auto simp: lit_def)

lemma length_lit [simp]: "length (lit s) = length s"
  by (simp add: lit_def)

lemma lit_append: "lit (s @ t) = lit s @ lit t"
  by (simp add: lit_def)

lemma prefix_lit [simp]: "prefix (lit p) (lit s) \<longleftrightarrow> prefix p s"
proof (induction p arbitrary: s)
  case Nil
  show ?case by simp
next
  case (Cons c p)
  then show ?case by (cases s) (auto simp: lit_def)
qed

lemma str_includes_lit [simp]:
  "str_includes (lit []) q = (q = [])"
  "str_includes (lit (c # cs)) (lit p) = (prefix p (c # cs) \<or> str_includes (lit cs) (lit p))"
  using prefix_lit[of p "c # cs"] by (simp_all add: lit_def)

lemma drop_lit: "drop n (lit s) = lit (drop n s)"
  by (simp add: lit_def drop_map)

lemma replace_first_lit [simp]:
  "replace_first (lit []) q = []"
  "replace_first (lit (c # cs)) (lit p) =
     (if prefix p (c # cs) then lit (drop (length p) (c # cs))
      else lit [c] @ replace_first (lit cs) (lit p))"
proof -
  show "replace_first (lit []) q = []" by simp
  have c: "lit (c # cs) = of_char c # lit cs" by (simp add: lit_def)
  have "replace_first (of_char c # lit cs) (lit p) =
     (if prefix (lit p) (of_char c # lit cs) then drop (length (lit p)) (of_char c # lit cs)
      else of_char c # replace_first (lit cs) (lit p))"
    by simp
  then show "replace_first (lit (c # cs)) (lit p) =
     (if prefix p (c # cs) then lit (drop (length p) (c # cs))
      else lit [c] @ replace_first (lit cs) (lit p))"
    using prefix_lit[of p "c # cs"] drop_lit[of "length p" "c # cs"]
    by (simp add: c lit_def)
qed

lemma trim_id:
  assumes "s \<noteq> []" and "\<not> is_space (hd s)" and "\<not> is_space (last s)"
  shows "trim s = s"
proof -
  from assms(1,2) have 1: "dropWhile is_space s = s"
    by (cases s) simp_all
  from assms(1,3) have 2: "dropWhile is_space (rev s) = rev s"
    by (cases s rule: rev_cases) simp_all
  show ?thesis by (simp add: trim_def 1 2)
qed

lemma trim_lit:
  "s \<noteq> [] \<Longrightarrow> \<not> is_space (of_char (hd s)) \<Longrightarrow> \<not> is_space (of_char (last s)) \<Longrightarrow>
   trim (lit s) = lit s"
  by (rule trim_id) (simp_all add: lit_def hd_map last_map)

section \<open>The conversation loop, step by step\<close>

lemma append_text_Nil [simp]: "append_text acc [] = acc"
  by (simp add: append_text_def)

lemma msg_text_user [simp]: "msg_text \<lparr>role = User, content = c\<rparr> = []"
  by (simp add: msg_text_def split: msg_content.splits)

lemma msg_text_assistant [simp]: "msg_text \<lparr>role = Assistant, content = Blocks c\<rparr> = responseText c"
  by (simp add: msg_text_def)

lemma model_replies_append [simp]: "model_replies (xs @ ys) = model_replies xs + model_replies ys"
  by (simp add: model_replies_def)

lemma model_replies_simps [simp]:
  "model_replies [] = 0"
  "model_replies (\<lparr>role = Assistant, content = c\<rparr> # ms) = Suc (model_replies ms)"
  "model_replies (\<lparr>role = User, content = c\<rparr> # ms) = model_replies ms"
  by (simp_all add: model_replies_def is_assistant_def)

lemma conversation_stop:
  "\<not> running st \<Longrightarrow> conversation env api session st w = (Inr st, w)"
  by (subst conversation.simps) (auto simp: running_def)

lemma conversation_throw:
  "running st \<Longrightarrow> messages_create env w session (availableTools api) (l_messages st) = (Inl e, w1)
   \<Longrightarrow> conversation env api session st w = (Inl e, w1)"
  by (subst conversation.simps) (auto simp: running_def)

lemma conversation_tools:
  "running st \<Longrightarrow> messages_create env w session (availableTools api) (l_messages st) = (Inr c, w1)
   \<Longrightarrow> filter is_tool_use c \<noteq> []
   \<Longrightarrow> executeTools env api (filter is_tool_use c)
         ([], l_locatorHistory st, l_contextUpdates st) w1 = ((rs, h, cu), w2)
   \<Longrightarrow> conversation env api session st w =
       conversation env api session
         ((replied st c)\<lparr>l_locatorHistory := h, l_contextUpdates := cu,
            l_messages := l_messages (replied st c) @ [\<lparr>role = User, content = Results rs\<rparr>]\<rparr>) w2"
  by (subst conversation.simps) (simp add: running_def replied_def Let_def)

lemma conversation_done:
  "running st \<Longrightarrow> messages_create env w session (availableTools api) (l_messages st) = (Inr c, w1)
   \<Longrightarrow> filter is_tool_use c = []
   \<Longrightarrow> conversation env api session st w =
       conversation env api session ((replied st c)\<lparr>conversationComplete := True\<rparr>) w1"
  by (subst conversation.simps) (simp add: running_def replied_def Let_def)

lemma conversation_cases:
  obtains (stop) "\<not> running st" "conversation env api session st w = (Inr st, w)"
  | (throw) e w1 where "running st"
      "messages_create env w session (availableTools api) (l_messages st) = (Inl e, w1)"
      "conversation env api session st w = (Inl e, w1)"
  | (tools) c w1 rs h cu w2 where "running st"
      "messages_create env w session (availableTools api) (l_messages st) = (Inr c, w1)"
      "filter is_tool_use c \<noteq> []"
      "executeTools env api (filter is_tool_use c)
         ([], l_locatorHistory st, l_contextUpdates st) w1 = ((rs, h, cu), w2)"
      "conversation env api session st w =
       conversation env api session
         ((replied st c)\<lparr>l_locatorHistory := h, l_contextUpdates := cu,
            l_messages := l_messages (replied st c) @ [\<lparr>role = User, content = Results rs\<rparr>]\<rparr>) w2"
  | (final) c w1 where "running st"
      "messages_create env w session (availableTools api) (l_messages st) = (Inr c, w1)"
      "filter is_tool_use c = []"
      "conversation env api session st w =
       conversation env api session ((replied st c)\<lparr>conversationComplete := True\<rparr>) w1"
proof (cases "running st")
  case False
  show ?thesis by (rule stop[OF False conversation_stop[OF False]])
next
  case True
  obtain r w1 where mc: "messages_create env w session (availableTools api) (l_messages st) = (r, w1)"
    by (cases "messages_create env w session (availableTools api) (l_messages st)")
  show ?thesis
  proof (cases r)
    case (Inl e)
    with mc have mc': "messages_create env w session (availableTools api) (l_messages st) = (Inl e, w1)"
      by simp
    show ?thesis by (rule throw[OF True mc' conversation_throw[OF True mc']])
  next
    case (Inr c)
    show ?thesis
    proof (cases "filter is_tool_use c = []")
      case True
      from mc Inr have mc': "messages_create env w session (availableTools api) (l_messages st) = (Inr c, w1)"
        by simp
      show ?thesis by (rule final[OF \<open>running st\<close> mc' True conversation_done[OF \<open>running st\<close> mc' True]])
    next
      case False
      obtain rs h cu w2 where ex: "executeTools env api (filter is_tool_use c)
                           ([], l_locatorHistory st, l_contextUpdates st) w1 = ((rs, h, cu), w2)"
        by (metis prod_cases3 surj_pair)
      from mc Inr have mc': "messages_create env w session (availableTools api) (l_messages st) = (Inr c, w1)"
        by simp
      show ?thesis by (rule tools[OF True mc' False ex conversation_tools[OF True mc' False ex]])
    qed
  qed
qed

lemma conversation_returns:
  "conversation env api session st w = (Inr st', w') \<Longrightarrow>
     \<exists>new. l_messages st' = l_messages st @ new
         \<and> finalResult st' = foldl append_text (finalResult st) (map msg_text new)
         \<and> model_replies new + iteration st = iteration st'
         \<and> (iteration st \<le> maxIterations \<longrightarrow> iteration st' \<le> maxIterations)"
proof (induction "maxIterations - iteration st" arbitrary: st w rule: less_induct)
  case less
  show ?case
  proof (cases rule: conversation_cases[of st env api session w])
    case stop
    with less.prems show ?thesis by auto
  next
    case (throw e w1)
    with less.prems show ?thesis by simp
  next
    case (tools c w1 rs h cu w2)
    let ?st2 = "(replied st c)\<lparr>l_locatorHistory := h, l_contextUpdates := cu,
            l_messages := l_messages (replied st c) @ [\<lparr>role = User, content = Results rs\<rparr>]\<rparr>"
    have "maxIterations - iteration ?st2 < maxIterations - iteration st"
      using tools(1) by (simp add: running_def replied_def) arith
    from less.hyps[OF this] tools(5) less.prems
    obtain new where n: "l_messages st' = l_messages ?st2 @ new"
           "finalResult st' = foldl append_text (finalResult ?st2) (map msg_text new)"
           "model_replies new + iteration ?st2 = iteration st'"
           "iteration ?st2 \<le> maxIterations \<longrightarrow> iteration st' \<le> maxIterations" by force
    show ?thesis
      apply (rule exI[of _ "[\<lparr>role = Assistant, content = Blocks c\<rparr>, \<lparr>role = User, content = Results rs\<rparr>] @ new"])
      using n tools(1) by (simp add: replied_def running_def)
  next
    case (final c w1)
    let ?st2 = "(replied st c)\<lparr>conversationComplete := True\<rparr>"
    have "maxIterations - iteration ?st2 < maxIterations - iteration st"
      using final(1) by (simp add: running_def replied_def) arith
    from less.hyps[OF this] final(4) less.prems
    obtain new where n: "l_messages st' = l_messages ?st2 @ new"
           "finalResult st' = foldl append_text (finalResult ?st2) (map msg_text new)"
           "model_replies new + iteration ?st2 = iteration st'"
           "iteration ?st2 \<le> maxIterations \<longrightarrow> iteration st' \<le> maxIterations" by force
    show ?thesis
      apply (rule exI[of _ "[\<lparr>role = Assistant, content = Blocks c\<rparr>] @ new"])
      using n final(1) by (simp add: replied_def running_def)
  qed
qed

lemma conversation_no_throw:
  assumes "\<And>w s tl m. \<not> isl (fst (messages_create env w s tl m))"
  shows "\<exists>st' w'. conversation env api session st w = (Inr st', w')"
proof (induction "maxIterations - iteration st" arbitrary: st w rule: less_induct)
  case less
  show ?case
  proof (cases rule: conversation_cases[of st env api session w])
    case stop
    then show ?thesis by auto
  next
    case (throw e w1)
    with assms[of w session "availableTools api" "l_messages st"] show ?thesis by simp
  next
    case (tools c w1 rs h cu w2)
    let ?st2 = "(replied st c)\<lparr>l_locatorHistory := h, l_contextUpdates := cu,
            l_messages := l_messages (replied st c) @ [\<lparr>role = User, content = Results rs\<rparr>]\<rparr>"
    have "maxIterations - iteration ?st2 < maxIterations - iteration st"
      using tools(1) by (simp add: running_def replied_def) arith
    from less.hyps[OF this] tools(5) show ?thesis by simp
  next
    case (final c w1)
    let ?st2 = "(replied st c)\<lparr>conversationComplete := True\<rparr>"
    have "maxIterations - iteration ?st2 < maxIterations - iteration st"
      using final(1) by (simp add: running_def replied_def) arith
    from less.hyps[OF this] final(4) show ?thesis by simp
  qed
qed

section \<open>The retry loop, step by step\<close>

lemma retry_loop_exhausted:
  "\<not> retryCount < maxRetries \<Longrightarrow>
   retry_loop env api msg session retryCount delays w = (ReturnedUndefined, session, delays, w)"
  by (subst retry_loop.simps) simp

lemma retry_loop_success:
  "retryCount < maxRetries \<Longrightarrow>
   conversation env api session (initial_loop_state session msg) w = (Inr st, w1) \<Longrightarrow>
   retry_loop env api msg session retryCount delays w =
     (Returned (result_of st), session\<lparr>messages := l_messages st\<rparr>, delays, w1)"
  by (subst retry_loop.simps) simp

lemma retry_loop_overloaded:
  "retryCount < maxRetries \<Longrightarrow>
   conversation env api session (initial_loop_state session msg) w = (Inl err, w1) \<Longrightarrow>
   status err = Some 529 \<Longrightarrow>
   retry_loop env api msg session retryCount delays w =
     retry_loop env api msg session (retryCount + 1) (delays @ [(retryCount + 1) * 2000])
       (sleep env ((retryCount + 1) * 2000) w1)"
  by (subst retry_loop.simps) simp

lemma retry_loop_throw:
  "retryCount < maxRetries \<Longrightarrow>
   conversation env api session (initial_loop_state session msg) w = (Inl err, w1) \<Longrightarrow>
   status err \<noteq> Some 529 \<Longrightarrow> retryCount + 1 \<ge> maxRetries \<Longrightarrow>
   retry_loop env api msg session retryCount delays w = (Threw err, session, delays, w1)"
  by (subst retry_loop.simps) simp

lemma retry_loop_again:
  "retryCount < maxRetries \<Longrightarrow>
   conversation env api session (initial_loop_state session msg) w = (Inl err, w1) \<Longrightarrow>
   status err \<noteq> Some 529 \<Longrightarrow> retryCount + 1 < maxRetries \<Longrightarrow>
   retry_loop env api msg session retryCount delays w =
     retry_loop env api msg session (retryCount + 1) (delays @ [1000]) (sleep env 1000 w1)"
  by (subst retry_loop.simps) simp

lemma accumulated_foldl: "foldl append_text [] (map msg_text new) = accumulated new"
  by (simp add: accumulated_def)

text \<open>What a run that returns a result has done.\<close>

lemma retry_loop_returned:
  "retry_loop env api msg session retryCount delays w = (Returned r, s1, delays1, w1) \<Longrightarrow>
     \<exists>new. s1 = session\<lparr>messages := messages session @ \<lparr>role = User, content = Prompt msg\<rparr> # new\<rparr>
          \<and> model_replies new = r_totalSteps r
          \<and> r_totalSteps r \<le> maxIterations
          \<and> response r = (if accumulated new \<noteq> [] then accumulated new
                           else (lit ''Task completed successfully''))
          \<and> r_success r"
proof (induction "maxRetries - retryCount" arbitrary: retryCount delays w rule: less_induct)
  case less
  show ?case
  proof (cases "retryCount < maxRetries")
    case False
    with less.prems show ?thesis by (simp add: retry_loop_exhausted)
  next
    case True
    obtain x w2 where conv: "conversation env api session (initial_loop_state session msg) w = (x, w2)"
      by (cases "conversation env api session (initial_loop_state session msg) w")
    show ?thesis
    proof (cases x)
      case (Inr st)
      with conv have c: "conversation env api session (initial_loop_state session msg) w = (Inr st, w2)"
        by simp
      from conversation_returns[OF c] obtain new where
        n: "l_messages st = l_messages (initial_loop_state session msg) @ new"
           "finalResult st = foldl append_text (finalResult (initial_loop_state session msg)) (map msg_text new)"
           "model_replies new + iteration (initial_loop_state session msg) = iteration st"
           "iteration (initial_loop_state session msg) \<le> maxIterations \<longrightarrow> iteration st \<le> maxIterations"
        by blast
      from less.prems retry_loop_success[OF True c]
      have r: "r = result_of st" "s1 = session\<lparr>messages := l_messages st\<rparr>" by simp_all
      show ?thesis
        apply (rule exI[of _ new])
        using n r by (simp add: initial_loop_state_def result_of_def accumulated_def)
    next
      case (Inl err)
      with conv have c: "conversation env api session (initial_loop_state session msg) w = (Inl err, w2)"
        by simp
      have less': "maxRetries - (retryCount + 1) < maxRetries - retryCount"
        using True by arith
      show ?thesis
      proof (cases "status err = Some 529")
        case True
        from less.hyps[OF less'] less.prems retry_loop_overloaded[OF \<open>retryCount < maxRetries\<close> c True]
        show ?thesis by simp
      next
        case False
        show ?thesis
        proof (cases "retryCount + 1 \<ge> maxRetries")
          case True
          with less.prems retry_loop_throw[OF \<open>retryCount < maxRetries\<close> c False] show ?thesis by simp
        next
          case f: False
          then have "retryCount + 1 < maxRetries" by simp
          from less.hyps[OF less'] less.prems retry_loop_again[OF \<open>retryCount < maxRetries\<close> c False this]
          show ?thesis by simp
        qed
      qed
    qed
  qed
qed

lemma retry_loop_not_returned:
  "retry_loop env api msg session retryCount delays w = (out, s1, delays1, w1) \<Longrightarrow>
   (\<forall>r. out \<noteq> Returned r) \<Longrightarrow> s1 = session"
proof (induction "maxRetries - retryCount" arbitrary: retryCount delays w rule: less_induct)
  case less
  show ?case
  proof (cases "retryCount < maxRetries")
    case False
    with less.prems show ?thesis by (simp add: retry_loop_exhausted)
  next
    case True
    obtain x w2 where conv: "conversation env api session (initial_loop_state session msg) w = (x, w2)"
      by (cases "conversation env api session (initial_loop_state session msg) w")
    show ?thesis
    proof (cases x)
      case (Inr st)
      with conv have c: "conversation env api session (initial_loop_state session msg) w = (Inr st, w2)"
        by simp
      from less.prems retry_loop_success[OF True c] show ?thesis by auto
    next
      case (Inl err)
      with conv have c: "conversation env api session (initial_loop_state session msg) w = (Inl err, w2)"
        by simp
      have less': "maxRetries - (retryCount + 1) < maxRetries - retryCount"
        using True by arith
      show ?thesis
      proof (cases "status err = Some 529")
        case True
        from less.hyps[OF less' _ less.prems(2)] less.prems(1)
          retry_loop_overloaded[OF \<open>retryCount < maxRetries\<close> c True]
        show ?thesis by simp
      next
        case False
        show ?thesis
        proof (cases "retryCount + 1 \<ge> maxRetries")
          case True
          with less.prems retry_loop_throw[OF \<open>retryCount < maxRetries\<close> c False] show ?thesis by simp
        next
          case f: False
          then have "retryCount + 1 < maxRetries" by simp
          from less.hyps[OF less' _ less.prems(2)] less.prems(1)
            retry_loop_again[OF \<open>retryCount < maxRetries\<close> c False this]
          show ?thesis by simp
        qed
      qed
    qed
  qed
qed

lemma retry_loop_no_throw:
  assumes "\<And>w s tl m. \<not> isl (fst (messages_create env w s tl m))"
    and "retryCount < maxRetries"
  shows "\<exists>r s1 w1. retry_loop env api msg session retryCount delays w = (Returned r, s1, delays, w1)"
proof -
  from conversation_no_throw[OF assms(1)] obtain st w1 where
    "conversation env api session (initial_loop_state session msg) w = (Inr st, w1)" by blast
  from retry_loop_success[OF assms(2) this] show ?thesis by blast
qed

section \<open>The session store: expiry and writes\<close>

lemma set_update_subset: "set (AList.update k v al) \<subseteq> insert (k, v) (set al)"
  by (induction al) auto

lemma set_delete_subset: "set (AList.delete k al) \<subseteq> set al"
  by (auto simp: AList.delete_eq)

lemma map_of_cleanup_fires:
  "map_of (sessions (cleanup_fires sm i now)) j =
     (case map_of (sessions sm) i of
        None \<Rightarrow> map_of (sessions sm) j
      | Some s \<Rightarrow> if now - lastActivity s > sessionTimeout sm \<and> j = i then None
                  else map_of (sessions sm) j)"
  by (auto simp: cleanup_fires_def Let_def AList.delete_conv' split: option.splits)

lemma keys_cleanup_fires:
  "map fst (sessions (cleanup_fires sm i now)) =
     (case map_of (sessions sm) i of
        None \<Rightarrow> map fst (sessions sm)
      | Some s \<Rightarrow> if now - lastActivity s > sessionTimeout sm
                  then removeAll i (map fst (sessions sm))
                  else map fst (sessions sm))"
  by (auto simp: cleanup_fires_def Let_def AList.delete_keys split: option.splits)

lemma sessionTimeout_cleanup_fires [simp]:
  "sessionTimeout (cleanup_fires sm i now) = sessionTimeout sm"
  by (simp add: cleanup_fires_def Let_def split: option.splits)

lemma trim_spaces: "\<forall>c\<in>set s. is_space c \<Longrightarrow> trim s = []"
  by (auto simp: trim_def dest: set_dropWhileD)

lemma ids_getAllSessions:
  "key_is_id sm \<Longrightarrow> map ss_id (getAllSessions sm) = map fst (sessions sm)"
  by (auto simp: key_is_id_def getAllSessions_def)

lemma key_is_id_init: "key_is_id SessionManager_new"
  by (simp add: key_is_id_def SessionManager_new_def)

lemma key_is_id_cleanup: "key_is_id sm \<Longrightarrow> key_is_id (cleanup_fires sm i now)"
  using set_delete_subset[of i "sessions sm"]
  by (auto simp: key_is_id_def cleanup_fires_def Let_def split: option.splits)

lemma key_is_id_delete: "key_is_id sm \<Longrightarrow> key_is_id (snd (deleteSession sm i))"
  using set_delete_subset[of i "sessions sm"]
  by (auto simp: key_is_id_def deleteSession_def)

lemma key_is_id_create: "key_is_id sm \<Longrightarrow> key_is_id (snd (createSession sm i t1 t2))"
  using set_update_subset[of i "new_session i t1 t2" "sessions sm"]
  by (auto simp: key_is_id_def createSession_def scheduleCleanup_def Let_def new_session_def)

lemma key_is_id_lookup: "key_is_id sm \<Longrightarrow> map_of (sessions sm) i = Some s \<Longrightarrow> sid s = i"
  by (auto simp: key_is_id_def dest: map_of_SomeD)

lemma key_is_id_get: "key_is_id sm \<Longrightarrow> key_is_id (snd (getSession sm i now))"
proof (cases "map_of (sessions sm) i")
  case None
  assume "key_is_id sm"
  with None show ?thesis by (simp add: getSession_def)
next
  case (Some s)
  assume k: "key_is_id sm"
  from key_is_id_lookup[OF k Some] have "sid s = i" .
  with k Some set_update_subset[of i "s\<lparr>lastActivity := now\<rparr>" "sessions sm"]
  show ?thesis by (auto simp: key_is_id_def getSession_def Let_def)
qed

lemma getSession_found:
  "map_of (sessions sm) i = Some s \<Longrightarrow>
   getSession sm i now =
     (Some (s\<lparr>lastActivity := now\<rparr>),
      sm\<lparr>sessions := AList.update i (s\<lparr>lastActivity := now\<rparr>) (sessions sm)\<rparr>)"
  by (simp add: getSession_def Let_def)

lemma updateSession_found:
  "map_of (sessions sm) i = Some s \<Longrightarrow>
   updateSession sm i u now =
     (Some ((assign s u)\<lparr>lastActivity := now\<rparr>),
      sm\<lparr>sessions := AList.update i ((assign s u)\<lparr>lastActivity := now\<rparr>) (sessions sm)\<rparr>)"
  by (simp add: updateSession_def Let_def)

text \<open>
  C8. \<^verbatim>\<open>createSession\<close> schedules exactly one cleanup for the session, with the timeout as
  delay (30 minutes in a new \<^verbatim>\<open>SessionManager\<close>), and reading or updating a session
  schedules none. When the cleanup of a session that is there fires at time \<open>now\<close>, the
  session is deleted if and only if \<open>now - lastActivity\<close> exceeds the timeout: then it is
  absent from the list of \<^verbatim>\<open>getAllSessions\<close>, and else it is still listed; so a session
  that \<^verbatim>\<open>getSession\<close> touched at a time \<open>t\<close> no more than the timeout before the cleanup
  fires survives it.
\<close>

theorem cleanup_deletes_exactly_the_idle:
  assumes "key_is_id sm" and "map_of (sessions sm) i = Some s"
  shows "sessionTimeout SessionManager_new = 30 * 60 * 1000
       \<and> timers (snd (createSession sm j t1 t2)) = timers sm @ [(sessionTimeout sm, j)]
       \<and> timers (snd (getSession sm j t)) = timers sm
       \<and> timers (snd (updateSession sm j u t)) = timers sm
       \<and> timers (cleanup_fires sm i now) = remove1 (sessionTimeout sm, i) (timers sm)
       \<and> (map_of (sessions (cleanup_fires sm i now)) i = None
            \<longleftrightarrow> now - lastActivity s > sessionTimeout sm)
       \<and> (i \<in> set (map ss_id (getAllSessions (cleanup_fires sm i now)))
            \<longleftrightarrow> now - lastActivity s \<le> sessionTimeout sm)
       \<and> (now - t \<le> sessionTimeout sm \<longrightarrow>
            i \<in> set (map ss_id (getAllSessions (cleanup_fires (snd (getSession sm i t)) i now))))"
proof -
  have a: "sessionTimeout SessionManager_new = 30 * 60 * 1000"
    by (simp add: SessionManager_new_def)
  have b: "timers (snd (createSession sm j t1 t2)) = timers sm @ [(sessionTimeout sm, j)]"
    by (simp add: createSession_def scheduleCleanup_def Let_def)
  have c: "timers (snd (getSession sm j t)) = timers sm"
    by (simp add: getSession_def Let_def split: option.splits)
  have d: "timers (snd (updateSession sm j u t)) = timers sm"
    by (simp add: updateSession_def Let_def split: option.splits)
  have e: "timers (cleanup_fires sm i now) = remove1 (sessionTimeout sm, i) (timers sm)"
    by (simp add: cleanup_fires_def Let_def split: option.splits)
  have f: "map_of (sessions (cleanup_fires sm i now)) i = None
            \<longleftrightarrow> now - lastActivity s > sessionTimeout sm"
    using assms(2) by (simp add: map_of_cleanup_fires)
  have listed: "i \<in> set (map ss_id (getAllSessions (cleanup_fires sm' i now)))
            \<longleftrightarrow> now - lastActivity s' \<le> sessionTimeout sm'"
    if "key_is_id sm'" and "map_of (sessions sm') i = Some s'" for sm' s'
  proof -
    have "i \<in> set (map fst (sessions sm'))"
      using that(2) by (metis map_of_eq_None_iff option.distinct(1) set_map)
    then show ?thesis
      using that
      by (auto simp add: ids_getAllSessions key_is_id_cleanup keys_cleanup_fires simp del: set_map)
  qed
  have g: "i \<in> set (map ss_id (getAllSessions (cleanup_fires sm i now)))
            \<longleftrightarrow> now - lastActivity s \<le> sessionTimeout sm"
    using listed[OF assms] .
  have h: "i \<in> set (map ss_id (getAllSessions (cleanup_fires (snd (getSession sm i t)) i now)))"
    if "now - t \<le> sessionTimeout sm"
  proof -
    let ?sm = "snd (getSession sm i t)"
    have 1: "key_is_id ?sm" using assms(1) by (rule key_is_id_get)
    have 2: "map_of (sessions ?sm) i = Some (s\<lparr>lastActivity := t\<rparr>)"
      using assms(2) by (simp add: getSession_found AList.update_conv')
    have 3: "sessionTimeout ?sm = sessionTimeout sm"
      using assms(2) by (simp add: getSession_found)
    from listed[OF 1 2] that 3 show ?thesis by simp
  qed
  from a b c d e f g h show ?thesis by blast
qed

theorem cleanup_deletes_exactly_the_idle_witness:
  "key_is_id sm0 \<and> map_of (sessions sm0) (lit ''u0'') = Some s0
   \<and> timers (snd (createSession sm0 (lit ''u1'') 7 7)) = timers sm0 @ [(sessionTimeout sm0, (lit ''u1''))]
   \<and> map_of (sessions (cleanup_fires sm0 (lit ''u0'') 1800001)) (lit ''u0'') = None
   \<and> (lit ''u0'') \<notin> set (map ss_id (getAllSessions (cleanup_fires sm0 (lit ''u0'') 1800001)))
   \<and> (lit ''u0'') \<in> set (map ss_id (getAllSessions (cleanup_fires sm0 (lit ''u0'') 1800000)))
   \<and> (lit ''u0'') \<in> set (map ss_id
        (getAllSessions (cleanup_fires (snd (getSession sm0 (lit ''u0'') 1799999)) (lit ''u0'') 3599999)))"
proof -
  have k: "key_is_id sm0"
    by (simp add: key_is_id_def sm0_def createSession_def SessionManager_new_def Let_def
        scheduleCleanup_def new_session_def)
  have m: "map_of (sessions sm0) (lit ''u0'') = Some s0"
    by (simp add: sm0_def s0_def createSession_def SessionManager_new_def Let_def
        scheduleCleanup_def)
  have t: "sessionTimeout sm0 = 1800000" "lastActivity s0 = 0"
    by (simp_all add: sm0_def s0_def createSession_def SessionManager_new_def Let_def
        scheduleCleanup_def new_session_def)
  show ?thesis
    using k m t
      cleanup_deletes_exactly_the_idle[OF k m, of "(lit ''u1'')" 7 7 0 "\<lparr>u_locatorHistory = None, u_totalSteps = None, u_context = None\<rparr>" 1800001]
      cleanup_deletes_exactly_the_idle[OF k m, of "(lit ''u1'')" 7 7 0 "\<lparr>u_locatorHistory = None, u_totalSteps = None, u_context = None\<rparr>" 1800000]
      cleanup_deletes_exactly_the_idle[OF k m, of "(lit ''u1'')" 7 7 1799999 "\<lparr>u_locatorHistory = None, u_totalSteps = None, u_context = None\<rparr>" 3599999]
    by simp
qed

lemma processPromptWithMCP_session:
  "\<exists>ms. fst (snd (processPromptWithMCP env api msg s w)) = s\<lparr>messages := ms\<rparr>"
proof -
  obtain out s1 d w1 where run: "retry_loop env api msg s 0 [] w = (out, s1, d, w1)"
    by (metis prod_cases4)
  show ?thesis
  proof (cases "\<exists>r. out = Returned r")
    case True
    then obtain r where "out = Returned r" by blast
    with run retry_loop_returned[of env api msg s 0 "[]" w r s1 d w1] show ?thesis
      by (auto simp: processPromptWithMCP_def)
  next
    case False
    then have "\<forall>r. out \<noteq> Returned r" by blast
    from retry_loop_not_returned[OF run this] run have "s1 = s\<lparr>messages := messages s\<rparr>" by simp
    with run show ?thesis unfolding processPromptWithMCP_def
      by (metis fst_conv snd_conv)
  qed
qed

text \<open>
  C9 as stated fails: reading a session with \<^verbatim>\<open>getSession\<close> at time 5 changes the record
  the store holds for it.
\<close>

theorem getSession_changes_the_record:
  "map_of (sessions (snd (getSession sm0 (lit ''u0'') 5))) (lit ''u0'') \<noteq> map_of (sessions sm0) (lit ''u0'')"
  by (simp add: sm0_def getSession_def createSession_def SessionManager_new_def Let_def
      scheduleCleanup_def new_session_def)

text \<open>
  C10. A prompt that is absent, \<^verbatim>\<open>null\<close> or another falsy value, empty, or made only of
  the white space \<^verbatim>\<open>trim\<close> strips (Unicode white space and line terminators included)
  is answered with 400 \<^verbatim>\<open>Prompt is required\<close>; the session manager and the world are as
  before, so no session has been looked up, touched or created.
\<close>

theorem blank_prompt_is_rejected:
  assumes "\<not> truthy_opt (prompt body)
         \<or> (\<exists>p. prompt body = Some (JStr p) \<and> (\<forall>c\<in>set p. is_space c))"
  shows "post_prompt env api sm body w = (Status400 (lit ''Prompt is required''), sm, w)"
  using assms by (auto simp: post_prompt_def trim_spaces)

theorem blank_prompt_is_rejected_witness:
  "post_prompt (scripted [] done_reply) api0 sm0
     \<lparr>prompt = Some (JStr [0x20, 0xA0, 0x09, 0x0A, 0x2028, 0x2003, 0x3000, 0xFEFF]),
      sessionId = Some (JStr (lit ''u0'')), continueSession = Some (JBool True)\<rparr> 0
   = (Status400 (lit ''Prompt is required''), sm0, 0)
   \<and> post_prompt (scripted [] done_reply) api0 sm0
     \<lparr>prompt = None, sessionId = None, continueSession = None\<rparr> 0
   = (Status400 (lit ''Prompt is required''), sm0, 0)
   \<and> post_prompt (scripted [] done_reply) api0 sm0
     \<lparr>prompt = Some JNull, sessionId = None, continueSession = None\<rparr> 0
   = (Status400 (lit ''Prompt is required''), sm0, 0)"
  using blank_prompt_is_rejected[of
          "\<lparr>prompt = Some (JStr [0x20, 0xA0, 0x09, 0x0A, 0x2028, 0x2003, 0x3000, 0xFEFF]),
            sessionId = Some (JStr (lit ''u0'')), continueSession = Some (JBool True)\<rparr>"
          "scripted [] done_reply" api0 sm0 0]
        blank_prompt_is_rejected[of "\<lparr>prompt = None, sessionId = None, continueSession = None\<rparr>"
          "scripted [] done_reply" api0 sm0 0]
        blank_prompt_is_rejected[of "\<lparr>prompt = Some JNull, sessionId = None, continueSession = None\<rparr>"
          "scripted [] done_reply" api0 sm0 0]
  by (simp add: is_space_def)

section \<open>The tool calls of one step\<close>

lemma locator_inspect_result [simp]: "locator (inspect_result env r info) = locator info"
  by (simp add: inspect_result_def Let_def split: option.splits)

lemma tool_inspect_result [simp]: "tool (inspect_result env r info) = tool info"
  by (simp add: inspect_result_def Let_def split: option.splits)

lemma locator_extractLocatorInfo:
  "locator (extractLocatorInfo env now n a r) =
     (if str_includes n (lit ''playwright_'') then select_locator env a else None)"
  by (simp add: extractLocatorInfo_def Let_def)

lemma tool_extractLocatorInfo [simp]: "tool (extractLocatorInfo env now n a r) = n"
  by (simp add: extractLocatorInfo_def Let_def)

lemma select_locator_none:
  "a (lit ''selector'') = None \<Longrightarrow> a (lit ''locator'') = None \<Longrightarrow> a (lit ''text'') = None \<Longrightarrow>
   a (lit ''role'') = None \<or> a (lit ''name'') = None \<Longrightarrow> select_locator env a = None"
  by (auto simp: select_locator_def)

lemma select_locator_selector:
  "a (lit ''selector'') = Some v \<Longrightarrow> truthy v \<Longrightarrow> select_locator env a = Some v"
  by (simp add: select_locator_def)

text \<open>One pass through the body of the \<^verbatim>\<open>for\<close> loop: the \<^verbatim>\<open>try\<close> and the \<^verbatim>\<open>catch\<close>.\<close>

lemma executeToolUse_returned:
  "callTool env api (tu_name tu) (tu_input tu) w = (Inr r, w1) \<Longrightarrow> Date_now env w1 = (t1, w2) \<Longrightarrow>
   \<exists>cu1 w3. executeToolUse env api tu (rs, h, cu) w =
     ((rs @ [\<lparr>tool_use_id = tu_id tu, tre_content = toolContent r, is_error = False\<rparr>],
       push_locator (extractLocatorInfo env t1 (tu_name tu) (tu_input tu) (Some r)) h, cu1), w3)"
  unfolding executeToolUse_def by (simp add: Let_def split: prod.splits)

lemma executeToolUse_thrown:
  "callTool env api (tu_name tu) (tu_input tu) w = (Inl msg, w1) \<Longrightarrow> Date_now env w1 = (t1, w2) \<Longrightarrow>
   executeToolUse env api tu (rs, h, cu) w =
     ((rs @ [error_entry (tu_id tu) msg],
       push_locator ((extractLocatorInfo env t1 (tu_name tu) (tu_input tu) None)\<lparr>success := False\<rparr>) h,
       cu), w2)"
  unfolding executeToolUse_def by (simp add: Let_def)

lemma executeToolUse_effect:
  assumes "executeToolUse env api tu (rs, h, cu) w = ((rs1, h1, cu1), w1)"
  shows "\<exists>e info. rs1 = rs @ [e] \<and> tool_use_id e = tu_id tu
       \<and> (is_error e \<longleftrightarrow> isl (fst (callTool env api (tu_name tu) (tu_input tu) w)))
       \<and> h1 = push_locator info h \<and> tool info = tu_name tu
       \<and> locator info = (if str_includes (tu_name tu) (lit ''playwright_'')
                          then select_locator env (tu_input tu) else None)"
proof -
  obtain x w2 where ct: "callTool env api (tu_name tu) (tu_input tu) w = (x, w2)"
    by (cases "callTool env api (tu_name tu) (tu_input tu) w")
  obtain t1 w3 where dn: "Date_now env w2 = (t1, w3)"
    by (cases "Date_now env w2")
  show ?thesis
  proof (cases x)
    case (Inr r)
    with ct have c: "callTool env api (tu_name tu) (tu_input tu) w = (Inr r, w2)" by simp
    from executeToolUse_returned[OF c dn, of rs h cu] assms
    have "rs1 = rs @ [\<lparr>tool_use_id = tu_id tu, tre_content = toolContent r, is_error = False\<rparr>]"
      and "h1 = push_locator (extractLocatorInfo env t1 (tu_name tu) (tu_input tu) (Some r)) h"
      by auto
    then show ?thesis
      apply (intro exI[of _ "\<lparr>tool_use_id = tu_id tu, tre_content = toolContent r, is_error = False\<rparr>"]
                   exI[of _ "extractLocatorInfo env t1 (tu_name tu) (tu_input tu) (Some r)"])
      using c by (simp add: locator_extractLocatorInfo)
  next
    case (Inl msg)
    with ct have c: "callTool env api (tu_name tu) (tu_input tu) w = (Inl msg, w2)" by simp
    from executeToolUse_thrown[OF c dn, of rs h cu] assms
    have "rs1 = rs @ [error_entry (tu_id tu) msg]"
      and "h1 = push_locator ((extractLocatorInfo env t1 (tu_name tu) (tu_input tu) None)\<lparr>success := False\<rparr>) h"
      by auto
    then show ?thesis
      apply (intro exI[of _ "error_entry (tu_id tu) msg"]
                   exI[of _ "(extractLocatorInfo env t1 (tu_name tu) (tu_input tu) None)\<lparr>success := False\<rparr>"])
      using c by (simp add: locator_extractLocatorInfo error_entry_def)
  qed
qed

lemma executeTools_ids:
  "executeTools env api tus (rs, h, cu) w = ((rs1, h1, cu1), w1) \<Longrightarrow>
   map tool_use_id rs1 = map tool_use_id rs @ map tu_id tus"
proof (induction tus arbitrary: rs h cu w)
  case Nil
  then show ?case by simp
next
  case (Cons tu tus)
  obtain rs2 h2 cu2 w2 where st: "executeToolUse env api tu (rs, h, cu) w = ((rs2, h2, cu2), w2)"
    by (metis prod_cases3 surj_pair)
  from executeToolUse_effect[OF st] obtain e where e: "rs2 = rs @ [e]" "tool_use_id e = tu_id tu"
    by blast
  from Cons.prems st have "executeTools env api tus (rs2, h2, cu2) w2 = ((rs1, h1, cu1), w1)"
    by simp
  from Cons.IH[OF this] e show ?case by simp
qed

text \<open>
  C5, as the code has it. A tool call whose arguments have none of \<^verbatim>\<open>selector\<close>,
  \<^verbatim>\<open>locator\<close>, \<^verbatim>\<open>text\<close>, and not both \<^verbatim>\<open>role\<close> and \<^verbatim>\<open>name\<close>, appends nothing to the
  locator trail, whether the call succeeds or fails. A call of a tool whose name contains
  \<^verbatim>\<open>playwright_\<close> and whose \<^verbatim>\<open>selector\<close> argument is truthy appends one record, whose
  locator is that value and whose tool is the name called.
\<close>

theorem locator_record_of_a_tool_call:
  assumes "executeToolUse env api tu (rs, h, cu) w = ((rs1, h1, cu1), w1)"
  shows "(tu_input tu (lit ''selector'') = None \<and> tu_input tu (lit ''locator'') = None
            \<and> tu_input tu (lit ''text'') = None
            \<and> (tu_input tu (lit ''role'') = None \<or> tu_input tu (lit ''name'') = None) \<longrightarrow> h1 = h)
       \<and> (str_includes (tu_name tu) (lit ''playwright_'') \<and> tu_input tu (lit ''selector'') = Some v \<and> truthy v
            \<longrightarrow> (\<exists>info. h1 = h @ [info] \<and> locator info = Some v \<and> tool info = tu_name tu))"
proof -
  from executeToolUse_effect[OF assms] obtain info where
    i: "h1 = push_locator info h" "tool info = tu_name tu"
       "locator info = (if str_includes (tu_name tu) (lit ''playwright_'')
                        then select_locator env (tu_input tu) else None)"
    by blast
  have a: "h1 = h"
    if "tu_input tu (lit ''selector'') = None" "tu_input tu (lit ''locator'') = None"
       "tu_input tu (lit ''text'') = None" "tu_input tu (lit ''role'') = None \<or> tu_input tu (lit ''name'') = None"
    using i that select_locator_none[of "tu_input tu" env] by (simp add: push_locator_def)
  have b: "\<exists>info. h1 = h @ [info] \<and> locator info = Some v \<and> tool info = tu_name tu"
    if "str_includes (tu_name tu) (lit ''playwright_'')" "tu_input tu (lit ''selector'') = Some v" "truthy v"
    using i that select_locator_selector[of "tu_input tu" v env] by (simp add: push_locator_def)
  from a b show ?thesis by blast
qed

theorem locator_record_of_a_tool_call_witness:
  "(\<exists>info. fst (snd (fst (executeToolUse (scripted [] done_reply) api0
        (ToolUse (lit ''toolu_1'') (lit ''playwright_playwright_navigate'') [(lit ''selector'') \<mapsto> JStr (lit ''#submit'')])
        ([], [], no_updates) 0))) = [info]
      \<and> locator info = Some (JStr (lit ''#submit'')) \<and> tool info = (lit ''playwright_playwright_navigate''))
   \<and> fst (snd (fst (executeToolUse (scripted [] done_reply) api0
        (ToolUse (lit ''toolu_2'') (lit ''playwright_playwright_navigate'') [(lit ''url'') \<mapsto> JStr (lit ''https://example.com'')])
        ([], [], no_updates) 0))) = []"
proof -
  let ?r1 = "executeToolUse (scripted [] done_reply) api0
        (ToolUse (lit ''toolu_1'') (lit ''playwright_playwright_navigate'') [(lit ''selector'') \<mapsto> JStr (lit ''#submit'')])
        ([], [], no_updates) 0"
  let ?r2 = "executeToolUse (scripted [] done_reply) api0
        (ToolUse (lit ''toolu_2'') (lit ''playwright_playwright_navigate'') [(lit ''url'') \<mapsto> JStr (lit ''https://example.com'')])
        ([], [], no_updates) 0"
  have e1: "?r1 = ((fst (fst ?r1), fst (snd (fst ?r1)), snd (snd (fst ?r1))), snd ?r1)" by simp
  have e2: "?r2 = ((fst (fst ?r2), fst (snd (fst ?r2)), snd (snd (fst ?r2))), snd ?r2)" by simp
  have p: "str_includes (lit ''playwright_playwright_navigate'') (lit ''playwright_'')" by simp
  show ?thesis
    using locator_record_of_a_tool_call[OF e1, of "JStr (lit ''#submit'')"]
          locator_record_of_a_tool_call[OF e2, of "JStr (lit ''#submit'')"] p
    by simp
qed

text \<open>
  C5 as stated fails: a call of \<^verbatim>\<open>custom_echo\<close> with an explicit \<^verbatim>\<open>selector\<close> appends no
  record, since the name does not contain \<^verbatim>\<open>playwright_\<close>.
\<close>

theorem selector_of_other_tool_is_dropped:
  "fst (snd (fst (executeToolUse (scripted [] done_reply) api0
        (ToolUse (lit ''toolu_1'') (lit ''custom_echo'') [(lit ''selector'') \<mapsto> JStr (lit ''#submit'')])
        ([], [], no_updates) 0))) = []"
  by (simp add: executeToolUse_def callTool_def api0_def scripted_def ok_response_def Let_def
      extractLocatorInfo_def push_locator_def)

section \<open>The retry budget\<close>

lemma running_initial: "running (initial_loop_state s msg)"
  by (simp add: running_def initial_loop_state_def maxIterations_def)

text \<open>A model service that fails every query with the same error.\<close>

lemma conversation_always_failing:
  "conversation (scripted [] (Inl err)) api s (initial_loop_state s msg) w = (Inl err, Suc w)"
  by (rule conversation_throw[OF running_initial]) (simp add: scripted_def)

lemma always_overloaded_run:
  "processPromptWithMCP (scripted [] (Inl overloaded_error)) api msg s w =
     (ReturnedUndefined, s, [2000, 4000, 6000], w + 3)"
proof -
  let ?env = "scripted [] (Inl overloaded_error)"
  have st: "status overloaded_error = Some 529" by (simp add: overloaded_error_def)
  have sl: "sleep ?env n v = v" for n v by (simp add: scripted_def)
  have "retry_loop ?env api msg s 0 [] w = retry_loop ?env api msg s 1 [2000] (Suc w)"
    using retry_loop_overloaded[where retryCount=0 and delays="[]" and w="w" and api=api and msg=msg and session=s, OF _ conversation_always_failing st]
    by (simp add: maxRetries_def sl numeral_2_eq_2 numeral_3_eq_3)
  also have "\<dots> = retry_loop ?env api msg s 2 [2000, 4000] (Suc (Suc w))"
    using retry_loop_overloaded[where retryCount=1 and delays="[2000]" and w="Suc w" and api=api and msg=msg and session=s, OF _ conversation_always_failing st]
    by (simp add: maxRetries_def sl numeral_2_eq_2 numeral_3_eq_3)
  also have "\<dots> = retry_loop ?env api msg s 3 [2000, 4000, 6000] (Suc (Suc (Suc w)))"
    using retry_loop_overloaded[where retryCount=2 and delays="[2000, 4000]" and w="Suc (Suc w)" and api=api and msg=msg and session=s, OF _ conversation_always_failing st]
    by (simp add: maxRetries_def sl numeral_2_eq_2 numeral_3_eq_3)
  also have "\<dots> = (ReturnedUndefined, s, [2000, 4000, 6000], Suc (Suc (Suc w)))"
    by (rule retry_loop_exhausted) (simp add: maxRetries_def)
  finally show ?thesis by (simp add: processPromptWithMCP_def)
qed

text \<open>The sibling path: an error that is not 529 is thrown when the third attempt fails.\<close>

lemma always_unavailable_run:
  "processPromptWithMCP (scripted [] (Inl unavailable)) api msg s w =
     (Threw unavailable, s, [1000, 1000], w + 3)"
proof -
  let ?env = "scripted [] (Inl unavailable)"
  have st: "status unavailable \<noteq> Some 529" by (simp add: unavailable_def)
  have sl: "sleep ?env n v = v" for n v by (simp add: scripted_def)
  have "retry_loop ?env api msg s 0 [] w = retry_loop ?env api msg s 1 [1000] (Suc w)"
    using retry_loop_again[where retryCount=0 and delays="[]" and w="w" and api=api and msg=msg and session=s, OF _ conversation_always_failing st]
    by (simp add: maxRetries_def sl numeral_2_eq_2 numeral_3_eq_3)
  also have "\<dots> = retry_loop ?env api msg s 2 [1000, 1000] (Suc (Suc w))"
    using retry_loop_again[where retryCount=1 and delays="[1000]" and w="Suc w" and api=api and msg=msg and session=s, OF _ conversation_always_failing st]
    by (simp add: maxRetries_def sl numeral_2_eq_2 numeral_3_eq_3)
  also have "\<dots> = (Threw unavailable, s, [1000, 1000], Suc (Suc (Suc w)))"
    using retry_loop_throw[where retryCount=2 and delays="[1000, 1000]" and w="Suc (Suc w)" and api=api and msg=msg and session=s, OF _ conversation_always_failing st]
    by (simp add: maxRetries_def numeral_2_eq_2 numeral_3_eq_3)
  finally show ?thesis by (simp add: processPromptWithMCP_def)
qed

lemma conversation_single_reply:
  assumes "messages_create env w s (availableTools api) (l_messages (initial_loop_state s msg)) = (Inr c, w1)"
    and "filter is_tool_use c = []"
  shows "conversation env api s (initial_loop_state s msg) w =
           (Inr ((replied (initial_loop_state s msg) c)\<lparr>conversationComplete := True\<rparr>), w1)"
proof -
  have "conversation env api s (initial_loop_state s msg) w =
        conversation env api s ((replied (initial_loop_state s msg) c)\<lparr>conversationComplete := True\<rparr>) w1"
    by (rule conversation_done[OF running_initial assms])
  also have "\<dots> = (Inr ((replied (initial_loop_state s msg) c)\<lparr>conversationComplete := True\<rparr>), w1)"
    by (rule conversation_stop) (simp add: running_def)
  finally show ?thesis .
qed

text \<open>Overloaded twice, then a reply: the third attempt completes, after 2 s and 4 s.\<close>

lemma overloaded_twice_run:
  "\<exists>r s1. processPromptWithMCP (scripted [Inl overloaded_error, Inl overloaded_error] done_reply)
            api0 (lit ''go'') s0 0 = (Returned r, s1, [2000, 4000], 3)
         \<and> response r = (lit ''done'') \<and> r_totalSteps r = 1"
proof -
  let ?env = "scripted [Inl overloaded_error, Inl overloaded_error] done_reply"
  have st: "status overloaded_error = Some 529" by (simp add: overloaded_error_def)
  have sl: "sleep ?env n v = v" for n v by (simp add: scripted_def)
  have c0: "conversation ?env api0 s0 (initial_loop_state s0 (lit ''go'')) 0 = (Inl overloaded_error, 1)"
    by (rule conversation_throw[OF running_initial]) (simp add: scripted_def)
  have c1: "conversation ?env api0 s0 (initial_loop_state s0 (lit ''go'')) 1 = (Inl overloaded_error, 2)"
    by (rule conversation_throw[OF running_initial]) (simp add: scripted_def)
  have c2: "conversation ?env api0 s0 (initial_loop_state s0 (lit ''go'')) 2 =
      (Inr ((replied (initial_loop_state s0 (lit ''go'')) [TextBlock (lit ''done'')])\<lparr>conversationComplete := True\<rparr>), 3)"
    by (rule conversation_single_reply) (simp_all add: scripted_def done_reply_def)
  have "retry_loop ?env api0 (lit ''go'') s0 0 [] 0 = retry_loop ?env api0 (lit ''go'') s0 1 [2000] 1"
    using retry_loop_overloaded[where retryCount=0 and delays="[]", OF _ c0 st]
    by (simp add: maxRetries_def sl)
  also have "\<dots> = retry_loop ?env api0 (lit ''go'') s0 2 [2000, 4000] 2"
    using retry_loop_overloaded[where retryCount=1 and delays="[2000]", OF _ c1 st]
    by (simp add: maxRetries_def sl numeral_2_eq_2)
  also have "\<dots> = (Returned (result_of ((replied (initial_loop_state s0 (lit ''go'')) [TextBlock (lit ''done'')])
                          \<lparr>conversationComplete := True\<rparr>)),
                   s0\<lparr>messages := l_messages ((replied (initial_loop_state s0 (lit ''go'')) [TextBlock (lit ''done'')])
                          \<lparr>conversationComplete := True\<rparr>)\<rparr>, [2000, 4000], 3)"
    by (rule retry_loop_success[OF _ c2]) (simp add: maxRetries_def)
  finally show ?thesis
    by (simp add: processPromptWithMCP_def result_of_def replied_def initial_loop_state_def
        append_text_def responseText_def)
qed

text \<open>
  C3 on a model service that always reports overloaded (529). The third failure leaves the
  retry loop by \<^verbatim>\<open>continue\<close>, before the test that throws: \<^verbatim>\<open>processPromptWithMCP\<close> has
  awaited 2, 4 and 6 seconds and returns \<^verbatim>\<open>undefined\<close>; no model-service error is thrown.
  The route answers 500 all the same, from the \<^verbatim>\<open>TypeError\<close> of reading
  \<^verbatim>\<open>result.locators\<close>.
\<close>

theorem always_overloaded_returns_undefined:
  "processPromptWithMCP (scripted [] (Inl overloaded_error)) api0 (lit ''go'') s0 0 =
     (ReturnedUndefined, s0, [2000, 4000, 6000], 3)
   \<and> processPromptWithMCP (scripted [] (Inl unavailable)) api0 (lit ''go'') s0 0 =
     (Threw unavailable, s0, [1000, 1000], 3)
   \<and> fst (post_prompt (scripted [] (Inl overloaded_error)) api0 SessionManager_new (new_body (lit ''go'')) 0)
       = Status500 (lit ''Internal server error'')"
  by (simp add: always_overloaded_run always_unavailable_run post_prompt_def run_prompt_def
      resolve_session_def new_body_def trim_lit is_space_def scripted_def[where dflt = "Inl overloaded_error", THEN arg_cong[where f = uuidv4]]
      scripted_def[where dflt = "Inl overloaded_error", THEN arg_cong[where f = Date_now]]
      createSession_def Let_def)

section \<open>Correlation of responses by id\<close>

lemma scan_lines_own_id:
  "scan_lines parse i ls = Some r \<Longrightarrow> rpc_id r = Some (JNum i)"
  by (induction ls) (auto simp: Let_def split: if_splits option.splits)

lemma dataHandler_own_id:
  "dataHandler parse i b d = (Some r, b1) \<Longrightarrow> rpc_id r = Some (JNum i)"
  by (auto simp: dataHandler_def Let_def split: option.splits dest: scan_lines_own_id)

text \<open>Whatever arrives, a listener resolves only with a response that carries the id of its request.\<close>

lemma emit_data_own_id:
  "(c, r) \<in> set (fst (emit_data parse ps d)) \<Longrightarrow>
   \<exists>p \<in> set ps. caller p = c \<and> rpc_id r = Some (JNum (request_id p))"
proof (induction ps)
  case Nil
  then show ?case by simp
next
  case (Cons p ps)
  obtain rs qs where e: "emit_data parse ps d = (rs, qs)" by (cases "emit_data parse ps d")
  obtain x b where h: "dataHandler parse (request_id p) (responseBuffer p) d = (x, b)"
    by (cases "dataHandler parse (request_id p) (responseBuffer p) d")
  show ?case
  proof (cases x)
    case None
    with Cons e h show ?thesis by auto
  next
    case (Some r')
    with Cons e h dataHandler_own_id[of parse "request_id p" "responseBuffer p" d r' b]
    show ?thesis by auto
  qed
qed

lemma trim_record_of [simp]: "trim (record_of r) = record_of r"
  by (rule trim_id) (simp_all add: record_of_def is_space_def dquote_def lit_def)

lemma split_nl_line: "10 \<notin> set l \<Longrightarrow> split_nl (l @ [10]) = [l, []]"
  by (induction l) auto

text \<open>
  C1 on two \<^verbatim>\<open>callTool\<close> requests issued on one server while the clock reads 1000 for
  both. They get the same id, \<^verbatim>\<open>Date.now()\<close>; the peer answers each with a record of that
  id, \<^verbatim>\<open>first\<close> then \<^verbatim>\<open>second\<close>. Both callers resolve with \<^verbatim>\<open>first\<close>, and \<^verbatim>\<open>second\<close>
  reaches no one: no listener is left when it arrives.
\<close>

theorem same_millisecond_requests_share_a_response:
  "map request_id (issue (issue [] 0 1000) 1 1000) = [1000, 1000]
   \<and> bridge_run parse0 ([], [])
        [Issue 0 1000, Issue 1 1000, Data (record_of (lit ''first'') @ [10])]
      = ([(0, \<lparr>rpc_id = Some (JNum 1000), rpc_body = (lit ''first'')\<rparr>),
          (1, \<lparr>rpc_id = Some (JNum 1000), rpc_body = (lit ''first'')\<rparr>)], [])
   \<and> bridge_run parse0 ([], [])
        [Issue 0 1000, Issue 1 1000, Data (record_of (lit ''first'') @ [10]),
         Data (record_of (lit ''second'') @ [10])]
      = ([(0, \<lparr>rpc_id = Some (JNum 1000), rpc_body = (lit ''first'')\<rparr>),
          (1, \<lparr>rpc_id = Some (JNum 1000), rpc_body = (lit ''first'')\<rparr>)], [])"
proof -
  have nl: "10 \<notin> set (record_of r)" if "10 \<notin> set r" for r
    using that by (simp add: record_of_def dquote_def lit_def)
  have ne: "record_of r \<noteq> []" for r
    by (simp add: record_of_def)
  have h: "dataHandler parse0 1000 [] (record_of (lit ''first'') @ [10])
             = (Some \<lparr>rpc_id = Some (JNum 1000), rpc_body = (lit ''first'')\<rparr>,
                record_of (lit ''first'') @ [10])"
    using nl[of "lit ''first''"]
    by (simp add: dataHandler_def Let_def split_nl_line parse0_def ne lit_def[of "''first''"])
  show ?thesis
    by (simp add: issue_def h)
qed

section \<open>The session store under the routes\<close>

lemma store_okI:
  "(\<And>k s. (k, s) \<in> set (sessions sm) \<Longrightarrow> sid s = k \<and> totalSteps s = model_replies (messages s))
   \<Longrightarrow> store_ok sm"
  by (auto simp: store_ok_def key_is_id_def steps_are_replies_def)

lemma store_okD:
  "store_ok sm \<Longrightarrow> (k, s) \<in> set (sessions sm) \<Longrightarrow>
   sid s = k \<and> totalSteps s = model_replies (messages s)"
  by (auto simp: store_ok_def key_is_id_def steps_are_replies_def)

lemma store_ok_lookup:
  "store_ok sm \<Longrightarrow> map_of (sessions sm) k = Some s \<Longrightarrow>
   sid s = k \<and> totalSteps s = model_replies (messages s)"
  by (auto dest: map_of_SomeD store_okD)

lemma store_ok_update:
  assumes "store_ok sm" and "sid s = k" and "totalSteps s = model_replies (messages s)"
  shows "store_ok (sm\<lparr>sessions := AList.update k s (sessions sm)\<rparr>)"
proof (rule store_okI)
  fix k' s' assume "(k', s') \<in> set (sessions (sm\<lparr>sessions := AList.update k s (sessions sm)\<rparr>))"
  then have "(k', s') = (k, s) \<or> (k', s') \<in> set (sessions sm)"
    using set_update_subset[of k s "sessions sm"] by auto
  with assms show "sid s' = k' \<and> totalSteps s' = model_replies (messages s')"
    by (auto dest: store_okD)
qed

lemma store_ok_timers [simp]: "store_ok (sm\<lparr>timers := t\<rparr>) = store_ok sm"
  by (simp add: store_ok_def key_is_id_def steps_are_replies_def)

lemma store_ok_subset:
  "store_ok sm \<Longrightarrow> set l \<subseteq> set (sessions sm) \<Longrightarrow> store_ok (sm\<lparr>sessions := l\<rparr>)"
  by (rule store_okI) (auto dest: store_okD)

lemma store_ok_init: "store_ok SessionManager_new"
  by (rule store_okI) (simp add: SessionManager_new_def)

lemma store_ok_create: "store_ok sm \<Longrightarrow> store_ok (snd (createSession sm i t1 t2))"
  using store_ok_update[of sm "new_session i t1 t2" i]
  by (simp add: createSession_def scheduleCleanup_def Let_def new_session_def)

lemma store_ok_get: "store_ok sm \<Longrightarrow> store_ok (snd (getSession sm i now))"
proof (cases "map_of (sessions sm) i")
  case None
  assume "store_ok sm"
  with None show ?thesis by (simp add: getSession_def)
next
  case (Some s)
  assume ok: "store_ok sm"
  from store_ok_lookup[OF ok Some] store_ok_update[OF ok, of "s\<lparr>lastActivity := now\<rparr>" i]
  show ?thesis by (simp add: getSession_found[OF Some])
qed

lemma store_ok_delete: "store_ok sm \<Longrightarrow> store_ok (snd (deleteSession sm i))"
  using store_ok_subset[OF _ set_delete_subset[of i "sessions sm"]]
  by (simp add: deleteSession_def)

lemma sessions_cleanup_subset: "set (sessions (cleanup_fires sm i now)) \<subseteq> set (sessions sm)"
  using set_delete_subset[of i "sessions sm"]
  by (auto simp: cleanup_fires_def Let_def split: option.splits)

lemma store_ok_cleanup: "store_ok sm \<Longrightarrow> store_ok (cleanup_fires sm i now)"
  using sessions_cleanup_subset[of sm i now]
  by (auto intro!: store_okI dest: store_okD)

text \<open>The session the handler resolves: touched, or created.\<close>

lemma resolve_session_cases:
  assumes "resolve_session env sm body w = (x, sm1, w1)"
  shows "(x = None \<and> sm1 = sm)
       \<or> (\<exists>i s t. map_of (sessions sm) i = Some s \<and> x = Some (s\<lparr>lastActivity := t\<rparr>)
             \<and> sm1 = sm\<lparr>sessions := AList.update i (s\<lparr>lastActivity := t\<rparr>) (sessions sm)\<rparr>)
       \<or> (\<exists>i t1 t2. x = Some (new_session i t1 t2) \<and> sm1 = snd (createSession sm i t1 t2))"
proof (cases "truthy_opt (sessionId body) \<and> truthy_opt (continueSession body)")
  case False
  with assms show ?thesis
    by (auto simp: resolve_session_def createSession_def Let_def split: prod.splits)
next
  case True
  show ?thesis
  proof (cases "lookup_key sm (sessionId body)")
    case None
    with True assms show ?thesis by (simp add: resolve_session_def)
  next
    case (Some p)
    obtain i s where p: "p = (i, s)" by (cases p)
    with Some have m: "map_of (sessions sm) i = Some s"
      by (auto simp: lookup_key_def split: option.splits jsval.splits)
    obtain t w2 where d: "Date_now env w = (t, w2)" by (cases "Date_now env w")
    from True Some p d assms getSession_found[OF m, of t]
    have "x = Some (s\<lparr>lastActivity := t\<rparr>)"
      "sm1 = sm\<lparr>sessions := AList.update i (s\<lparr>lastActivity := t\<rparr>) (sessions sm)\<rparr>"
      by (simp_all add: resolve_session_def)
    with m show ?thesis by blast
  qed
qed

lemma resolve_session_ok:
  assumes "store_ok sm" and "resolve_session env sm body w = (Some s, sm1, w1)"
  shows "store_ok sm1 \<and> map_of (sessions sm1) (sid s) = Some s
       \<and> totalSteps s = model_replies (messages s)"
proof -
  from resolve_session_cases[OF assms(2)]
  consider (touch) i s0 t where "map_of (sessions sm) i = Some s0" "s = s0\<lparr>lastActivity := t\<rparr>"
        "sm1 = sm\<lparr>sessions := AList.update i (s0\<lparr>lastActivity := t\<rparr>) (sessions sm)\<rparr>"
    | (new) i t1 t2 where "s = new_session i t1 t2" "sm1 = snd (createSession sm i t1 t2)"
    by auto
  then show ?thesis
  proof cases
    case touch
    from store_ok_lookup[OF assms(1) touch(1)]
    have k: "sid s0 = i" "totalSteps s0 = model_replies (messages s0)" by simp_all
    from store_ok_update[OF assms(1), of s i] touch k show ?thesis
      by (simp add: AList.update_conv')
  next
    case new
    from store_ok_create[OF assms(1), of i t1 t2] new show ?thesis
      by (simp add: createSession_def scheduleCleanup_def Let_def AList.update_conv' new_session_def)
  qed
qed

text \<open>What \<^verbatim>\<open>updateSession\<close> and the reply make of a run that returned.\<close>

lemma commit_result_effect:
  assumes "commit_result env sm s1 r w = (rep, sm2, w2)"
  shows "\<exists>now info. sessions sm2 =
            AList.update (sid s1)
              (s1\<lparr>locatorHistory := locatorHistory s1 @ locators r,
                  totalSteps := totalSteps s1 + r_totalSteps r,
                  sessionContext := spread_context (sessionContext s1) (r_context r),
                  lastActivity := now\<rparr>) (sessions sm)
          \<and> timers sm2 = timers sm \<and> sessionTimeout sm2 = sessionTimeout sm
          \<and> rep = Json200 r (sid s1) info
          \<and> si_totalSteps info = totalSteps s1 + 2 * r_totalSteps r"
  using assms
  by (auto simp: commit_result_def Let_def updateSession_def AList.update_conv' assign_def
      split: prod.splits)

lemma commit_result_ok:
  assumes "store_ok sm" and "totalSteps s1 + r_totalSteps r = model_replies (messages s1)"
    and "commit_result env sm s1 r w = (rep, sm2, w2)"
  shows "store_ok sm2"
proof -
  from commit_result_effect[OF assms(3)] obtain now where
    s: "sessions sm2 = AList.update (sid s1)
              (s1\<lparr>locatorHistory := locatorHistory s1 @ locators r,
                  totalSteps := totalSteps s1 + r_totalSteps r,
                  sessionContext := spread_context (sessionContext s1) (r_context r),
                  lastActivity := now\<rparr>) (sessions sm)"
    by blast
  let ?f = "s1\<lparr>locatorHistory := locatorHistory s1 @ locators r,
                  totalSteps := totalSteps s1 + r_totalSteps r,
                  sessionContext := spread_context (sessionContext s1) (r_context r),
                  lastActivity := now\<rparr>"
  have "store_ok (sm\<lparr>sessions := AList.update (sid s1) ?f (sessions sm)\<rparr>)"
    by (rule store_ok_update[OF assms(1)]) (simp_all add: assms(2))
  then show ?thesis
    using s by (auto intro!: store_okI dest: store_okD)
qed

lemma post_prompt_cases:
  assumes "post_prompt env api sm body w = (rep, sm1, w1)"
  shows "(sm1 = sm \<and> w1 = w \<and> (rep = Status400 (lit ''Prompt is required'')
                                 \<or> rep = Status500 (lit ''Internal server error'')))
       \<or> (\<exists>p. prompt body = Some (JStr p) \<and> trim p \<noteq> []
              \<and> run_prompt env api sm p body w = (rep, sm1, w1))"
  using assms
  by (auto simp: post_prompt_def split: if_splits option.splits jsval.splits)

lemma run_prompt_cases:
  assumes "run_prompt env api sm p body w = (rep, sm2, w2)"
  shows "(sm2 = sm \<and> rep = Status404 (lit ''Session not found''))
       \<or> (\<exists>s sm1 w1 out s1 d w3.
             resolve_session env sm body w = (Some s, sm1, w1)
           \<and> processPromptWithMCP env api p s w1 = (out, s1, d, w3)
           \<and> ((\<exists>r. out = Returned r \<and> commit_result env sm1 s1 r w3 = (rep, sm2, w2))
              \<or> ((\<forall>r. out \<noteq> Returned r) \<and> rep = Status500 (lit ''Internal server error'')
                    \<and> sm2 = sm1)))"
proof -
  obtain x sm1 w1 where r: "resolve_session env sm body w = (x, sm1, w1)"
    by (metis prod_cases3)
  show ?thesis
  proof (cases x)
    case None
    with r resolve_session_cases[OF r] assms show ?thesis
      by (auto simp: run_prompt_def)
  next
    case (Some s)
    obtain out s1 d w3 where pp: "processPromptWithMCP env api p s w1 = (out, s1, d, w3)"
      by (metis prod_cases4)
    from r Some pp assms show ?thesis
      by (cases out) (auto simp: run_prompt_def)
  qed
qed

lemma store_ok_prompt:
  assumes "store_ok sm"
  shows "store_ok (fst (snd (post_prompt env api sm body w)))"
proof -
  obtain rep sm2 w2 where pp: "post_prompt env api sm body w = (rep, sm2, w2)"
    by (metis prod_cases3)
  have "store_ok sm2"
  proof -
    from post_prompt_cases[OF pp]
    consider "sm2 = sm"
      | p where "run_prompt env api sm p body w = (rep, sm2, w2)" by blast
    then show ?thesis
    proof cases
      case 1
      with assms show ?thesis by simp
    next
      case 2
      from run_prompt_cases[OF 2]
      consider "sm2 = sm"
        | s sm1 w1 out s1 d w3 where
            "resolve_session env sm body w = (Some s, sm1, w1)"
            "processPromptWithMCP env api p s w1 = (out, s1, d, w3)"
            "(\<exists>r. out = Returned r \<and> commit_result env sm1 s1 r w3 = (rep, sm2, w2))
              \<or> ((\<forall>r. out \<noteq> Returned r) \<and> sm2 = sm1)"
        by blast
      then show ?thesis
      proof cases
        case 1
        with assms show ?thesis by simp
      next
        case 2
        from resolve_session_ok[OF assms 2(1)]
        have ok1: "store_ok sm1" and st: "totalSteps s = model_replies (messages s)" by simp_all
        from 2(3) show ?thesis
        proof
          assume "\<exists>r. out = Returned r \<and> commit_result env sm1 s1 r w3 = (rep, sm2, w2)"
          then obtain r where r: "out = Returned r" "commit_result env sm1 s1 r w3 = (rep, sm2, w2)"
            by blast
          from 2(2) r(1) have "retry_loop env api p s 0 [] w1 = (Returned r, s1, d, w3)"
            by (simp add: processPromptWithMCP_def)
          from retry_loop_returned[OF this] obtain new where
            n: "s1 = s\<lparr>messages := messages s @ \<lparr>role = User, content = Prompt p\<rparr> # new\<rparr>"
               "model_replies new = r_totalSteps r"
            by blast
          have "totalSteps s1 + r_totalSteps r = model_replies (messages s1)"
            using n st by simp
          from commit_result_ok[OF ok1 this r(2)] show ?thesis .
        next
          assume "(\<forall>r. out \<noteq> Returned r) \<and> sm2 = sm1"
          with ok1 show ?thesis by simp
        qed
      qed
    qed
  qed
  with pp show ?thesis by simp
qed

lemma reachable_store_ok: "reachable env api sm \<Longrightarrow> store_ok sm"
proof (induction rule: reachable.induct)
  case init
  show ?case by (rule store_ok_init)
next
  case (create sm i t1 t2)
  show ?case by (rule store_ok_create[OF create.IH])
next
  case (get sm i now)
  show ?case by (rule store_ok_get[OF get.IH])
next
  case (delete sm i)
  show ?case by (rule store_ok_delete[OF delete.IH])
next
  case (fires sm i now)
  show ?case by (rule store_ok_cleanup[OF fires.IH])
next
  case (prompt sm body w)
  show ?case by (rule store_ok_prompt[OF prompt.IH])
qed

text \<open>
  C6, as the code has it. When the prompt route answers 500, the session manager is as
  before (a prompt that is not a string), or it differs by what resolving the session did
  before the run: the session continued has its \<^verbatim>\<open>lastActivity\<close> refreshed, or a new, empty
  session has been created and its cleanup scheduled. Nothing of the failed run itself is
  written.
\<close>

theorem failed_prompt_keeps_the_resolved_session:
  assumes "post_prompt env api sm body w = (Status500 m, sm1, w1)"
  shows "sm1 = sm
       \<or> (\<exists>i s t. map_of (sessions sm) i = Some s
             \<and> sm1 = sm\<lparr>sessions := AList.update i (s\<lparr>lastActivity := t\<rparr>) (sessions sm)\<rparr>)
       \<or> (\<exists>i t1 t2. sm1 = snd (createSession sm i t1 t2))"
proof -
  from post_prompt_cases[OF assms]
  consider "sm1 = sm" | p where "run_prompt env api sm p body w = (Status500 m, sm1, w1)" by blast
  then show ?thesis
  proof cases
    case 1
    then show ?thesis by simp
  next
    case 2
    from run_prompt_cases[OF 2]
    consider "sm1 = sm"
      | s sm0 w0 out s1 w3 where
          "resolve_session env sm body w = (Some s, sm0, w0)"
          "(\<exists>r. out = Returned r \<and> commit_result env sm0 s1 r w3 = (Status500 m, sm1, w1))
            \<or> sm1 = sm0"
      by blast
    then show ?thesis
    proof cases
      case 1
      then show ?thesis by simp
    next
      case 2
      have "sm1 = sm0"
        using 2(2) commit_result_effect[of env sm0 s1 _ w3 "Status500 m" sm1 w1] by auto
      from resolve_session_cases[OF 2(1)]
      have "(\<exists>i s t. map_of (sessions sm) i = Some s
               \<and> sm0 = sm\<lparr>sessions := AList.update i (s\<lparr>lastActivity := t\<rparr>) (sessions sm)\<rparr>)
          \<or> (\<exists>i t1 t2. sm0 = snd (createSession sm i t1 t2))"
        by simp blast
      with \<open>sm1 = sm0\<close> show ?thesis by blast
    qed
  qed
qed

section \<open>The end-to-end example and the step count\<close>

text \<open>
  The run of the end-to-end example: the model asks for one \<^verbatim>\<open>navigate\<close> call, the call
  succeeds, and the model then answers without a tool call.
\<close>

lemma navigate_conversation:
  "conversation (scripted [navigate_reply] done_reply) api0 s (initial_loop_state s msg) 0 =
     (Inr \<lparr>l_messages = messages s @
              [\<lparr>role = User, content = Prompt msg\<rparr>,
               \<lparr>role = Assistant, content = Blocks
                  [ToolUse (lit ''toolu_1'') (lit ''playwright_playwright_navigate'')
                     [(lit ''url'') \<mapsto> JStr (lit ''https://example.com'')]]\<rparr>,
               \<lparr>role = User, content = Results
                  [\<lparr>tool_use_id = (lit ''toolu_1''),
                    tre_content = [\<lparr>itype = (lit ''text''), itext = Some (lit ''ok'')\<rparr>],
                    is_error = False\<rparr>]\<rparr>,
               \<lparr>role = Assistant, content = Blocks [TextBlock (lit ''done'')]\<rparr>],
           conversationComplete = True, iteration = 2, finalResult = (lit ''done''),
           l_locatorHistory = [],
           l_contextUpdates = \<lparr>cu_currentUrl = Some (JStr (lit ''https://example.com'')),
                                cu_browserState = Some (lit ''open''), cu_lastScreenshot = None\<rparr>\<rparr>, 2)"
proof -
  let ?env = "scripted [navigate_reply] done_reply"
  let ?tu = "ToolUse (lit ''toolu_1'') (lit ''playwright_playwright_navigate'')
                     [(lit ''url'') \<mapsto> JStr (lit ''https://example.com'')]"
  let ?st = "initial_loop_state s msg"
  have m1: "messages_create ?env 0 s (availableTools api0) (l_messages ?st) = (Inr [?tu], 1)"
    by (simp add: scripted_def navigate_reply_def)
  have f1: "filter is_tool_use [?tu] \<noteq> []" by simp
  have x1: "executeTools ?env api0 (filter is_tool_use [?tu])
              ([], l_locatorHistory ?st, l_contextUpdates ?st) 1 =
            (([\<lparr>tool_use_id = (lit ''toolu_1''),
                tre_content = [\<lparr>itype = (lit ''text''), itext = Some (lit ''ok'')\<rparr>],
                is_error = False\<rparr>], [],
              \<lparr>cu_currentUrl = Some (JStr (lit ''https://example.com'')),
               cu_browserState = Some (lit ''open''), cu_lastScreenshot = None\<rparr>), 1)"
    by (simp add: executeToolUse_def callTool_def api0_def scripted_def ok_response_def Let_def
        extractLocatorInfo_def push_locator_def toolContent_def select_locator_def
        inspect_result_def text_of_content_def initial_loop_state_def)
  let ?st2 = "(replied ?st [?tu])\<lparr>l_locatorHistory := [],
            l_contextUpdates := \<lparr>cu_currentUrl = Some (JStr (lit ''https://example.com'')),
               cu_browserState = Some (lit ''open''), cu_lastScreenshot = None\<rparr>,
            l_messages := l_messages (replied ?st [?tu]) @
              [\<lparr>role = User, content = Results [\<lparr>tool_use_id = (lit ''toolu_1''),
                tre_content = [\<lparr>itype = (lit ''text''), itext = Some (lit ''ok'')\<rparr>],
                is_error = False\<rparr>]\<rparr>]\<rparr>"
  have r2: "running ?st2"
    by (simp add: running_def replied_def initial_loop_state_def maxIterations_def)
  have m2: "messages_create ?env 1 s (availableTools api0) (l_messages ?st2)
              = (Inr [TextBlock (lit ''done'')], 2)"
    by (simp add: scripted_def done_reply_def)
  have f2: "filter is_tool_use [TextBlock (lit ''done'')] = []" by simp
  let ?st3 = "(replied ?st2 [TextBlock (lit ''done'')])\<lparr>conversationComplete := True\<rparr>"
  have "conversation ?env api0 s ?st 0 = conversation ?env api0 s ?st2 1"
    by (rule conversation_tools[OF running_initial m1 f1 x1])
  also have "\<dots> = conversation ?env api0 s ?st3 2"
    by (rule conversation_done[OF r2 m2 f2])
  also have "\<dots> = (Inr ?st3, 2)"
    by (rule conversation_stop) (simp add: running_def)
  finally show ?thesis
    by (simp add: replied_def initial_loop_state_def append_text_def responseText_def)
qed

lemma navigate_run:
  "processPromptWithMCP (scripted [navigate_reply] done_reply) api0 msg s 0 =
     (Returned \<lparr>response = (lit ''done''), locators = [], r_totalSteps = 2,
                r_context = \<lparr>cu_currentUrl = Some (JStr (lit ''https://example.com'')),
                             cu_browserState = Some (lit ''open''), cu_lastScreenshot = None\<rparr>,
                r_success = True\<rparr>,
      s\<lparr>messages := messages s @
              [\<lparr>role = User, content = Prompt msg\<rparr>,
               \<lparr>role = Assistant, content = Blocks
                  [ToolUse (lit ''toolu_1'') (lit ''playwright_playwright_navigate'')
                     [(lit ''url'') \<mapsto> JStr (lit ''https://example.com'')]]\<rparr>,
               \<lparr>role = User, content = Results
                  [\<lparr>tool_use_id = (lit ''toolu_1''),
                    tre_content = [\<lparr>itype = (lit ''text''), itext = Some (lit ''ok'')\<rparr>],
                    is_error = False\<rparr>]\<rparr>,
               \<lparr>role = Assistant, content = Blocks [TextBlock (lit ''done'')]\<rparr>]\<rparr>, [], 2)"
  unfolding processPromptWithMCP_def
  using retry_loop_success[where retryCount = 0 and delays = "[]", OF _ navigate_conversation[of s msg]]
  by (simp add: maxRetries_def result_of_def)

lemma trim_go [simp]: "trim (lit ''go'') = (lit ''go'')"
  by (simp add: trim_lit is_space_def)

lemma trim_navigate [simp]: "trim (lit ''navigate to example.com'') = (lit ''navigate to example.com'')"
  by (simp add: trim_lit is_space_def)

lemma scripted_fields [simp]:
  "Date_now (scripted sc d) = (\<lambda>w. (1000, w))"
  "uuidv4 (scripted sc d) = (\<lambda>w. ((lit ''u1''), w))"
  by (simp_all add: scripted_def)

lemma lookup_sm0: "map_of (sessions sm0) (lit ''u0'') = Some s0"
  by (simp add: sm0_def s0_def createSession_def SessionManager_new_def Let_def scheduleCleanup_def)

text \<open>The prompt route against a model service that fails every query with status 500.\<close>

lemma failing_prompt_new:
  "post_prompt (scripted [] (Inl unavailable)) api0 SessionManager_new (new_body (lit ''go'')) 0 =
     (Status500 (lit ''Internal server error''), snd (createSession SessionManager_new (lit ''u1'') 1000 1000), 3)"
  by (simp add: post_prompt_def run_prompt_def resolve_session_def new_body_def
      always_unavailable_run createSession_def Let_def)

lemma failing_prompt_continued:
  "post_prompt (scripted [] (Inl unavailable)) api0 sm0
     \<lparr>prompt = Some (JStr (lit ''go'')), sessionId = Some (JStr (lit ''u0'')),
      continueSession = Some (JBool True)\<rparr> 0 =
     (Status500 (lit ''Internal server error''),
      sm0\<lparr>sessions := AList.update (lit ''u0'') (s0\<lparr>lastActivity := 1000\<rparr>) (sessions sm0)\<rparr>, 3)"
  by (simp add: post_prompt_def run_prompt_def resolve_session_def lookup_key_def lookup_sm0
      getSession_found[OF lookup_sm0] always_unavailable_run)

theorem failed_prompt_keeps_the_resolved_session_witness:
  "post_prompt (scripted [] (Inl unavailable)) api0 sm0
     \<lparr>prompt = Some (JStr (lit ''go'')), sessionId = Some (JStr (lit ''u0'')),
      continueSession = Some (JBool True)\<rparr> 0 =
     (Status500 (lit ''Internal server error''),
      sm0\<lparr>sessions := AList.update (lit ''u0'') (s0\<lparr>lastActivity := 1000\<rparr>) (sessions sm0)\<rparr>, 3)
   \<and> (sm0\<lparr>sessions := AList.update (lit ''u0'') (s0\<lparr>lastActivity := 1000\<rparr>) (sessions sm0)\<rparr> = sm0
       \<or> (\<exists>i s t. map_of (sessions sm0) i = Some s
             \<and> sm0\<lparr>sessions := AList.update (lit ''u0'') (s0\<lparr>lastActivity := 1000\<rparr>) (sessions sm0)\<rparr>
                 = sm0\<lparr>sessions := AList.update i (s\<lparr>lastActivity := t\<rparr>) (sessions sm0)\<rparr>)
       \<or> (\<exists>i t1 t2. sm0\<lparr>sessions := AList.update (lit ''u0'') (s0\<lparr>lastActivity := 1000\<rparr>) (sessions sm0)\<rparr>
                 = snd (createSession sm0 i t1 t2)))"
  using failing_prompt_continued failed_prompt_keeps_the_resolved_session[OF failing_prompt_continued]
  by simp

text \<open>
  C6 as stated fails: a prompt without a session id, on a model service that fails every
  query, is answered with 500, and the store that was empty holds a new session.
\<close>

theorem failed_prompt_leaves_a_new_session:
  "fst (post_prompt (scripted [] (Inl unavailable)) api0 SessionManager_new (new_body (lit ''go'')) 0)
     = Status500 (lit ''Internal server error'')
   \<and> sessions SessionManager_new = []
   \<and> sessions (fst (snd (post_prompt (scripted [] (Inl unavailable)) api0 SessionManager_new
                           (new_body (lit ''go'')) 0)))
     = [((lit ''u1''), new_session (lit ''u1'') 1000 1000)]"
  unfolding failing_prompt_new
  by (simp add: createSession_def Let_def scheduleCleanup_def SessionManager_new_def)

text \<open>The prompt route on the end-to-end example, from an empty store.\<close>

lemma navigate_prompt:
  "post_prompt (scripted [navigate_reply] done_reply) api0 SessionManager_new
     (new_body (lit ''navigate to example.com'')) 0 =
   (Json200 \<lparr>response = (lit ''done''), locators = [], r_totalSteps = 2,
              r_context = \<lparr>cu_currentUrl = Some (JStr (lit ''https://example.com'')),
                           cu_browserState = Some (lit ''open''), cu_lastScreenshot = None\<rparr>,
              r_success = True\<rparr> (lit ''u1'')
      \<lparr>si_totalSteps = 4, si_totalLocators = 0, si_sessionAge = 0\<rparr>,
    \<lparr>sessions =
       [((lit ''u1''),
         \<lparr>sid = (lit ''u1''), createdAt = 1000, lastActivity = 1000,
          messages =
            [\<lparr>role = User, content = Prompt (lit ''navigate to example.com'')\<rparr>,
             \<lparr>role = Assistant, content = Blocks
                [ToolUse (lit ''toolu_1'') (lit ''playwright_playwright_navigate'')
                   [(lit ''url'') \<mapsto> JStr (lit ''https://example.com'')]]\<rparr>,
             \<lparr>role = User, content = Results
                [\<lparr>tool_use_id = (lit ''toolu_1''),
                  tre_content = [\<lparr>itype = (lit ''text''), itext = Some (lit ''ok'')\<rparr>],
                  is_error = False\<rparr>]\<rparr>,
             \<lparr>role = Assistant, content = Blocks [TextBlock (lit ''done'')]\<rparr>],
          sessionContext = \<lparr>currentUrl = JStr (lit ''https://example.com''), lastScreenshot = None,
                             browserState = (lit ''open''), completedActions = []\<rparr>,
          locatorHistory = [], totalSteps = 2\<rparr>)],
     sessionTimeout = 30 * 60 * 1000, timers = [(30 * 60 * 1000, (lit ''u1''))]\<rparr>, 2)"
  by (simp add: post_prompt_def run_prompt_def resolve_session_def new_body_def navigate_run
      createSession_def Let_def commit_result_def updateSession_def assign_def spread_context_def
      new_session_def scheduleCleanup_def SessionManager_new_def)

text \<open>
  C4, as the code has it. The server's requests handled one after the other, in every
  session manager it reaches each session's \<^verbatim>\<open>totalSteps\<close> is the number of replies of the
  model in the session's history: a run that returns adds its number of model-query
  iterations, whatever the number of tool calls in them.
\<close>

theorem step_count_is_reply_count:
  assumes "reachable env api sm"
  shows "steps_are_replies sm \<and> key_is_id sm"
  using reachable_store_ok[OF assms] by (simp add: store_ok_def)

theorem step_count_is_reply_count_witness:
  "reachable (scripted [navigate_reply] done_reply) api0
     (fst (snd (post_prompt (scripted [navigate_reply] done_reply) api0 SessionManager_new
                  (new_body (lit ''navigate to example.com'')) 0)))
   \<and> steps_are_replies
     (fst (snd (post_prompt (scripted [navigate_reply] done_reply) api0 SessionManager_new
                  (new_body (lit ''navigate to example.com'')) 0)))
   \<and> map (\<lambda>(k, s). (k, totalSteps s, model_replies (messages s)))
       (sessions (fst (snd (post_prompt (scripted [navigate_reply] done_reply) api0
                              SessionManager_new (new_body (lit ''navigate to example.com'')) 0))))
     = [((lit ''u1''), 2, 2)]"
proof -
  let ?sm = "fst (snd (post_prompt (scripted [navigate_reply] done_reply) api0 SessionManager_new
                  (new_body (lit ''navigate to example.com'')) 0))"
  have r: "reachable (scripted [navigate_reply] done_reply) api0 ?sm"
    by (rule reachable.prompt[OF reachable.init])
  have m: "map (\<lambda>(k, s). (k, totalSteps s, model_replies (messages s))) (sessions ?sm)
             = [((lit ''u1''), 2, 2)]"
    by (simp add: navigate_prompt)
  from r step_count_is_reply_count[OF r] m show ?thesis by simp
qed

text \<open>
  C4 as stated fails: in the end-to-end example the model asks for exactly one
  \<^verbatim>\<open>navigate\<close> call, which succeeds, and the run returns \<^verbatim>\<open>totalSteps\<close> 2, the two queries
  of the model, with one tool call in the history.
\<close>

theorem one_navigate_call_is_two_steps:
  "processPromptWithMCP (scripted [navigate_reply] done_reply) api0 (lit ''navigate to example.com'') s0 0 =
     (Returned \<lparr>response = (lit ''done''), locators = [], r_totalSteps = 2,
                r_context = \<lparr>cu_currentUrl = Some (JStr (lit ''https://example.com'')),
                             cu_browserState = Some (lit ''open''), cu_lastScreenshot = None\<rparr>,
                r_success = True\<rparr>,
      s0\<lparr>messages :=
              [\<lparr>role = User, content = Prompt (lit ''navigate to example.com'')\<rparr>,
               \<lparr>role = Assistant, content = Blocks
                  [ToolUse (lit ''toolu_1'') (lit ''playwright_playwright_navigate'')
                     [(lit ''url'') \<mapsto> JStr (lit ''https://example.com'')]]\<rparr>,
               \<lparr>role = User, content = Results
                  [\<lparr>tool_use_id = (lit ''toolu_1''),
                    tre_content = [\<lparr>itype = (lit ''text''), itext = Some (lit ''ok'')\<rparr>],
                    is_error = False\<rparr>]\<rparr>,
               \<lparr>role = Assistant, content = Blocks [TextBlock (lit ''done'')]\<rparr>]\<rparr>, [], 2)"
  by (simp add: navigate_run s0_def new_session_def)

section \<open>The entries of a tool step\<close>

lemma executeToolUse_entry:
  "fst (fst (executeToolUse env api tu (rs0, h0, cu0) w0)) =
     rs0 @ [wrapped_outcome tu (fst (callTool env api (tu_name tu) (tu_input tu) w0))]"
proof -
  obtain x w2 where ct: "callTool env api (tu_name tu) (tu_input tu) w0 = (x, w2)"
    by (cases "callTool env api (tu_name tu) (tu_input tu) w0")
  obtain t1 w3 where dn: "Date_now env w2 = (t1, w3)"
    by (cases "Date_now env w2")
  show ?thesis
  proof (cases x)
    case (Inr r)
    with ct have c: "callTool env api (tu_name tu) (tu_input tu) w0 = (Inr r, w2)" by simp
    from executeToolUse_returned[OF c dn, of rs0 h0 cu0] show ?thesis
      by (auto simp: c wrapped_outcome_def toolContent_def)
  next
    case (Inl msg)
    with ct have c: "callTool env api (tu_name tu) (tu_input tu) w0 = (Inl msg, w2)" by simp
    from executeToolUse_thrown[OF c dn, of rs0 h0 cu0] show ?thesis
      by (simp add: c wrapped_outcome_def error_entry_def)
  qed
qed

lemma executeTools_entries:
  "executeTools env api tus (rs0, h, cu) w = ((rs1, h1, cu1), w1) \<Longrightarrow>
     length rs1 = length rs0 + length tus \<and> take (length rs0) rs1 = rs0
   \<and> (\<forall>k < length tus. \<exists>w0. rs1 ! (length rs0 + k) =
         wrapped_outcome (tus ! k)
           (fst (callTool env api (tu_name (tus ! k)) (tu_input (tus ! k)) w0)))"
proof (induction tus arbitrary: rs0 h cu w)
  case Nil
  then show ?case by simp
next
  case (Cons tu tus)
  obtain rs2 h2 cu2 w2 where st: "executeToolUse env api tu (rs0, h, cu) w = ((rs2, h2, cu2), w2)"
    by (metis prod_cases3 surj_pair)
  from executeToolUse_entry[of env api tu rs0 h cu w] st
  have rs2: "rs2 = rs0 @ [wrapped_outcome tu (fst (callTool env api (tu_name tu) (tu_input tu) w))]"
    by simp
  from Cons.prems st have ex: "executeTools env api tus (rs2, h2, cu2) w2 = ((rs1, h1, cu1), w1)"
    by simp
  note ih = Cons.IH[OF ex]
  have len: "length rs1 = length rs0 + length (tu # tus)"
    using ih rs2 by simp
  have tk: "take (length rs0) rs1 = rs0"
  proof -
    have "take (length rs0) rs1 = take (length rs0) (take (length rs2) rs1)"
      using rs2 by (simp add: min_def)
    also have "\<dots> = take (length rs0) rs2" using ih by simp
    also have "\<dots> = rs0" using rs2 by simp
    finally show ?thesis .
  qed
  have el: "\<exists>w0. rs1 ! (length rs0 + k) =
         wrapped_outcome ((tu # tus) ! k)
           (fst (callTool env api (tu_name ((tu # tus) ! k)) (tu_input ((tu # tus) ! k)) w0))"
    if "k < length (tu # tus)" for k
  proof (cases k)
    case 0
    have "rs1 ! length rs0 = take (length rs2) rs1 ! length rs0"
      using rs2 by simp
    also have "\<dots> = rs2 ! length rs0" using ih by simp
    also have "\<dots> = wrapped_outcome tu (fst (callTool env api (tu_name tu) (tu_input tu) w))"
      using rs2 by simp
    finally show ?thesis using 0 by auto
  next
    case (Suc j)
    with that have "j < length tus" by simp
    with ih obtain w0 where "rs1 ! (length rs2 + j) =
         wrapped_outcome (tus ! j) (fst (callTool env api (tu_name (tus ! j)) (tu_input (tus ! j)) w0))"
      by blast
    then show ?thesis using Suc rs2 by auto
  qed
  from len tk el show ?case by blast
qed

text \<open>
  C7. In a step where the reply of the model asks for tools, every requested call leaves
  exactly one entry, in the order of the calls, whether it returned or threw; nothing is
  thrown out of the step and no call is skipped. The entry is tagged with the id of its
  call; when \<^verbatim>\<open>callTool\<close> returned it holds the content of the result (the printed result
  when it has none) and is no error; when \<^verbatim>\<open>callTool\<close> threw it holds the text
  \<^verbatim>\<open>Error: <message>. Please try alternative approaches or selectors.\<close> and is an error.
  The loop then goes on to the next query of the model from the history extended by the
  assistant turn and one user turn that holds all the entries.
\<close>

theorem tool_outcomes_become_one_user_turn:
  assumes "running st"
    and "messages_create env w session (availableTools api) (l_messages st) = (Inr c, w1)"
    and "filter is_tool_use c \<noteq> []"
    and "executeTools env api (filter is_tool_use c)
           ([], l_locatorHistory st, l_contextUpdates st) w1 = ((rs, h, cu), w2)"
  shows "length rs = length (filter is_tool_use c)
       \<and> map tool_use_id rs = map tu_id (filter is_tool_use c)
       \<and> (\<forall>k < length rs. \<exists>w0. rs ! k =
             (case fst (callTool env api (tu_name (filter is_tool_use c ! k)) (tu_input (filter is_tool_use c ! k)) w0) of
                  Inr r \<Rightarrow>
                    \<lparr>tool_use_id = tu_id (filter is_tool_use c ! k),
                     tre_content = (case tr_content r of
                                      Some x \<Rightarrow> x
                                    | None \<Rightarrow> [\<lparr>itype = lit ''text'', itext = Some (tr_json r)\<rparr>]),
                     is_error = False\<rparr>
                | Inl msg \<Rightarrow>
                    \<lparr>tool_use_id = tu_id (filter is_tool_use c ! k),
                     tre_content =
                       [\<lparr>itype = lit ''text'',
                         itext = Some (lit ''Error: '' @ msg
                                       @ lit ''. Please try alternative approaches or selectors.'')\<rparr>],
                     is_error = True\<rparr>))
       \<and> (\<exists>st2. conversation env api session st w = conversation env api session st2 w2
             \<and> l_messages st2 = l_messages st @ [\<lparr>role = Assistant, content = Blocks c\<rparr>,
                                                  \<lparr>role = User, content = Results rs\<rparr>]
             \<and> iteration st2 = iteration st + 1 \<and> \<not> conversationComplete st2)
       \<and> (\<forall>tu rs0 h0 cu0 v.
             fst (fst (executeToolUse env api tu (rs0, h0, cu0) v)) = rs0 @
               [(case fst (callTool env api (tu_name tu) (tu_input tu) v) of
                  Inr r \<Rightarrow>
                    \<lparr>tool_use_id = tu_id tu,
                     tre_content = (case tr_content r of
                                      Some x \<Rightarrow> x
                                    | None \<Rightarrow> [\<lparr>itype = lit ''text'', itext = Some (tr_json r)\<rparr>]),
                     is_error = False\<rparr>
                | Inl msg \<Rightarrow>
                    \<lparr>tool_use_id = tu_id tu,
                     tre_content =
                       [\<lparr>itype = lit ''text'',
                         itext = Some (lit ''Error: '' @ msg
                                       @ lit ''. Please try alternative approaches or selectors.'')\<rparr>],
                     is_error = True\<rparr>)])"
proof -
  let ?tus = "filter is_tool_use c"
  note e = executeTools_entries[OF assms(4)]
  have l: "length rs = length ?tus" using e by simp
  have a: "map tool_use_id rs = map tu_id ?tus"
    using executeTools_ids[OF assms(4)] by simp
  have k: "\<exists>w0. rs ! k =
             (case fst (callTool env api (tu_name (filter is_tool_use c ! k)) (tu_input (filter is_tool_use c ! k)) w0) of
                  Inr r \<Rightarrow>
                    \<lparr>tool_use_id = tu_id (filter is_tool_use c ! k),
                     tre_content = (case tr_content r of
                                      Some x \<Rightarrow> x
                                    | None \<Rightarrow> [\<lparr>itype = lit ''text'', itext = Some (tr_json r)\<rparr>]),
                     is_error = False\<rparr>
                | Inl msg \<Rightarrow>
                    \<lparr>tool_use_id = tu_id (filter is_tool_use c ! k),
                     tre_content =
                       [\<lparr>itype = lit ''text'',
                         itext = Some (lit ''Error: '' @ msg
                                       @ lit ''. Please try alternative approaches or selectors.'')\<rparr>],
                     is_error = True\<rparr>)"
    if "k < length rs" for k
  proof -
    from that l e obtain w0 where
      "rs ! k = wrapped_outcome (?tus ! k)
                  (fst (callTool env api (tu_name (?tus ! k)) (tu_input (?tus ! k)) w0))"
      by auto
    then show ?thesis unfolding wrapped_outcome_def by blast
  qed
  let ?st2 = "(replied st c)\<lparr>l_locatorHistory := h, l_contextUpdates := cu,
            l_messages := l_messages (replied st c) @ [\<lparr>role = User, content = Results rs\<rparr>]\<rparr>"
  have b: "\<exists>st2. conversation env api session st w = conversation env api session st2 w2
             \<and> l_messages st2 = l_messages st @ [\<lparr>role = Assistant, content = Blocks c\<rparr>,
                                                  \<lparr>role = User, content = Results rs\<rparr>]
             \<and> iteration st2 = iteration st + 1 \<and> \<not> conversationComplete st2"
    apply (rule exI[of _ ?st2])
    using conversation_tools[OF assms] assms(1)
    by (simp add: replied_def running_def)
  have t: "fst (fst (executeToolUse env api tu (rs0, h0, cu0) v)) = rs0 @
               [(case fst (callTool env api (tu_name tu) (tu_input tu) v) of
                  Inr r \<Rightarrow>
                    \<lparr>tool_use_id = tu_id tu,
                     tre_content = (case tr_content r of
                                      Some x \<Rightarrow> x
                                    | None \<Rightarrow> [\<lparr>itype = lit ''text'', itext = Some (tr_json r)\<rparr>]),
                     is_error = False\<rparr>
                | Inl msg \<Rightarrow>
                    \<lparr>tool_use_id = tu_id tu,
                     tre_content =
                       [\<lparr>itype = lit ''text'',
                         itext = Some (lit ''Error: '' @ msg
                                       @ lit ''. Please try alternative approaches or selectors.'')\<rparr>],
                     is_error = True\<rparr>)]"
    for tu rs0 h0 cu0 v
    using executeToolUse_entry[of env api tu rs0 h0 cu0 v]
    unfolding wrapped_outcome_def .
  from l a k b t show ?thesis by blast
qed

lemma two_tools_step:
  "executeTools (scripted [two_tools_reply] done_reply) api0
     [ToolUse (lit ''toolu_a'') (lit ''playwright_missing'') [(lit ''selector'') \<mapsto> JStr (lit ''#gone'')],
      ToolUse (lit ''toolu_b'') (lit ''playwright_playwright_navigate'')
        [(lit ''url'') \<mapsto> JStr (lit ''https://example.com'')]]
     ([], [], no_updates) 1 =
   (([\<lparr>tool_use_id = lit ''toolu_a'',
       tre_content =
         [\<lparr>itype = lit ''text'',
           itext = Some (lit ''Error: Unknown tool: playwright_missing. Please try alternative approaches or selectors.'')\<rparr>],
       is_error = True\<rparr>,
      \<lparr>tool_use_id = lit ''toolu_b'',
       tre_content = [\<lparr>itype = lit ''text'', itext = Some (lit ''ok'')\<rparr>],
       is_error = False\<rparr>],
     [\<lparr>tool = lit ''playwright_missing'', timestamp = 1000, locator = Some (JStr (lit ''#gone'')),
       action = Some (lit ''missing''), element = None, success = False\<rparr>],
     \<lparr>cu_currentUrl = Some (JStr (lit ''https://example.com'')),
      cu_browserState = Some (lit ''open''), cu_lastScreenshot = None\<rparr>), 1)"
  by (simp add: executeToolUse_def callTool_def api0_def scripted_def ok_response_def Let_def
      extractLocatorInfo_def push_locator_def no_updates_def toolContent_def select_locator_def
      inspect_result_def text_of_content_def error_entry_def flip: lit_append)

theorem tool_outcomes_become_one_user_turn_witness:
  "\<exists>st2. conversation (scripted [two_tools_reply] done_reply) api0 s0
            (initial_loop_state s0 (lit ''go'')) 0
          = conversation (scripted [two_tools_reply] done_reply) api0 s0 st2 1
      \<and> l_messages st2 =
          [\<lparr>role = User, content = Prompt (lit ''go'')\<rparr>,
           \<lparr>role = Assistant, content = Blocks (projr two_tools_reply)\<rparr>,
           \<lparr>role = User, content = Results
              [\<lparr>tool_use_id = lit ''toolu_a'',
                tre_content =
                  [\<lparr>itype = lit ''text'',
                    itext = Some (lit ''Error: Unknown tool: playwright_missing. Please try alternative approaches or selectors.'')\<rparr>],
                is_error = True\<rparr>,
               \<lparr>tool_use_id = lit ''toolu_b'',
                tre_content = [\<lparr>itype = lit ''text'', itext = Some (lit ''ok'')\<rparr>],
                is_error = False\<rparr>]\<rparr>]
      \<and> iteration st2 = 1 \<and> \<not> conversationComplete st2"
proof -
  let ?env = "scripted [two_tools_reply] done_reply"
  let ?st = "initial_loop_state s0 (lit ''go'')"
  have r: "running ?st"
    by (simp add: running_def initial_loop_state_def maxIterations_def)
  have m: "messages_create ?env 0 s0 (availableTools api0) (l_messages ?st)
             = (Inr (projr two_tools_reply), 1)"
    by (simp add: scripted_def two_tools_reply_def)
  have f: "filter is_tool_use (projr two_tools_reply) =
      [ToolUse (lit ''toolu_a'') (lit ''playwright_missing'') [(lit ''selector'') \<mapsto> JStr (lit ''#gone'')],
       ToolUse (lit ''toolu_b'') (lit ''playwright_playwright_navigate'')
         [(lit ''url'') \<mapsto> JStr (lit ''https://example.com'')]]"
    by (simp add: two_tools_reply_def)
  have n: "filter is_tool_use (projr two_tools_reply) \<noteq> []"
    by (simp add: f)
  have i: "l_locatorHistory ?st = []" "l_contextUpdates ?st = no_updates"
          "l_messages ?st = [\<lparr>role = User, content = Prompt (lit ''go'')\<rparr>]" "iteration ?st = 0"
    by (simp_all add: initial_loop_state_def no_updates_def s0_def new_session_def)
  have x: "executeTools ?env api0 (filter is_tool_use (projr two_tools_reply))
           ([], l_locatorHistory ?st, l_contextUpdates ?st) 1 =
     (([\<lparr>tool_use_id = lit ''toolu_a'',
       tre_content =
         [\<lparr>itype = lit ''text'',
           itext = Some (lit ''Error: Unknown tool: playwright_missing. Please try alternative approaches or selectors.'')\<rparr>],
       is_error = True\<rparr>,
      \<lparr>tool_use_id = lit ''toolu_b'',
       tre_content = [\<lparr>itype = lit ''text'', itext = Some (lit ''ok'')\<rparr>],
       is_error = False\<rparr>],
     [\<lparr>tool = lit ''playwright_missing'', timestamp = 1000, locator = Some (JStr (lit ''#gone'')),
       action = Some (lit ''missing''), element = None, success = False\<rparr>],
     \<lparr>cu_currentUrl = Some (JStr (lit ''https://example.com'')),
      cu_browserState = Some (lit ''open''), cu_lastScreenshot = None\<rparr>), 1)"
    unfolding f i by (rule two_tools_step)
  from tool_outcomes_become_one_user_turn[OF r m n x] i show ?thesis
    by simp
qed

section \<open>A run against a model that replies\<close>
















section \<open>Who writes a session record\<close>

lemma createSession_frame:
  "i \<noteq> j \<Longrightarrow> map_of (sessions (snd (createSession sm i t1 t2))) j = map_of (sessions sm) j"
  by (simp add: createSession_def scheduleCleanup_def Let_def AList.update_conv')

lemma deleteSession_frame:
  "map_of (sessions (snd (deleteSession sm i))) j = (if i = j then None else map_of (sessions sm) j)"
  by (simp add: deleteSession_def AList.delete_conv')

lemma getSession_frame:
  "i \<noteq> j \<Longrightarrow> map_of (sessions (snd (getSession sm i now))) j = map_of (sessions sm) j"
  by (simp add: getSession_def Let_def AList.update_conv' split: option.splits)

lemma updateSession_frame:
  "i \<noteq> j \<Longrightarrow> map_of (sessions (snd (updateSession sm i u now))) j = map_of (sessions sm) j"
  by (simp add: updateSession_def Let_def AList.update_conv' split: option.splits)

lemma resolve_session_frame:
  assumes "resolve_session env sm body w = (x, sm1, w1)" and "\<not> resolved_id env body w j"
  shows "map_of (sessions sm1) j = map_of (sessions sm) j"
proof (cases "truthy_opt (sessionId body) \<and> truthy_opt (continueSession body)")
  case False
  with assms show ?thesis
    by (auto simp: resolve_session_def resolved_id_def createSession_def scheduleCleanup_def
        Let_def AList.update_conv' split: prod.splits)
next
  case True
  show ?thesis
  proof (cases "lookup_key sm (sessionId body)")
    case None
    with True assms show ?thesis by (simp add: resolve_session_def)
  next
    case (Some p)
    obtain i s where p: "p = (i, s)" by (cases p)
    with Some have m: "map_of (sessions sm) i = Some s" and k: "sessionId body = Some (JStr i)"
      by (auto simp: lookup_key_def split: option.splits jsval.splits)
    from k True assms(2) have ne: "i \<noteq> j" by (auto simp: resolved_id_def)
    obtain t w2 where d: "Date_now env w = (t, w2)" by (cases "Date_now env w")
    from True Some p d assms(1) have "sm1 = snd (getSession sm i t)"
      by (simp add: resolve_session_def split: prod.splits)
    with getSession_frame[OF ne] show ?thesis by simp
  qed
qed

lemma resolve_session_sid:
  assumes "resolve_session env sm body w = (Some s, sm1, w1)" and "key_is_id sm"
  shows "resolved_id env body w (sid s)"
proof (cases "truthy_opt (sessionId body) \<and> truthy_opt (continueSession body)")
  case False
  with assms show ?thesis
    by (auto simp: resolve_session_def resolved_id_def createSession_def new_session_def
        Let_def split: prod.splits)
next
  case True
  show ?thesis
  proof (cases "lookup_key sm (sessionId body)")
    case None
    with True assms show ?thesis by (simp add: resolve_session_def)
  next
    case (Some p)
    obtain i s' where p: "p = (i, s')" by (cases p)
    with Some have m: "map_of (sessions sm) i = Some s'" and k: "sessionId body = Some (JStr i)"
      by (auto simp: lookup_key_def split: option.splits jsval.splits)
    obtain t w2 where d: "Date_now env w = (t, w2)" by (cases "Date_now env w")
    from True Some p d assms(1) getSession_found[OF m, of t] have "s = s'\<lparr>lastActivity := t\<rparr>"
      by (simp add: resolve_session_def)
    with key_is_id_lookup[OF assms(2) m] k True show ?thesis
      by (simp add: resolved_id_def)
  qed
qed

lemma commit_result_frame:
  assumes "commit_result env sm s1 r w = (rep, sm2, w2)" and "sid s1 \<noteq> j"
  shows "map_of (sessions sm2) j = map_of (sessions sm) j"
  using commit_result_effect[OF assms(1)] assms(2)
  by (auto simp: AList.update_conv')

lemma post_prompt_frame:
  assumes "key_is_id sm" and "\<not> resolved_id env body w j"
  shows "map_of (sessions (fst (snd (post_prompt env api sm body w)))) j = map_of (sessions sm) j"
proof -
  obtain rep sm2 w2 where pp: "post_prompt env api sm body w = (rep, sm2, w2)"
    by (metis prod_cases3)
  have "map_of (sessions sm2) j = map_of (sessions sm) j"
  proof -
    from post_prompt_cases[OF pp]
    consider "sm2 = sm" | p where "run_prompt env api sm p body w = (rep, sm2, w2)" by blast
    then show ?thesis
    proof cases
      case 1
      then show ?thesis by simp
    next
      case 2
      from run_prompt_cases[OF 2]
      consider "sm2 = sm"
        | s sm1 w1 out s1 d w3 where
            "resolve_session env sm body w = (Some s, sm1, w1)"
            "processPromptWithMCP env api p s w1 = (out, s1, d, w3)"
            "(\<exists>r. out = Returned r \<and> commit_result env sm1 s1 r w3 = (rep, sm2, w2))
              \<or> ((\<forall>r. out \<noteq> Returned r) \<and> sm2 = sm1)"
        by blast
      then show ?thesis
      proof cases
        case 1
        then show ?thesis by simp
      next
        case 2
        from resolve_session_frame[OF 2(1) assms(2)]
        have f1: "map_of (sessions sm1) j = map_of (sessions sm) j" .
        from resolve_session_sid[OF 2(1) assms(1)] assms(2) have ne: "sid s \<noteq> j" by auto
        from processPromptWithMCP_session[of env api p s w1] 2(2) have "sid s1 = sid s"
          by auto
        with ne have ne1: "sid s1 \<noteq> j" by simp
        from 2(3) show ?thesis
        proof
          assume "\<exists>r. out = Returned r \<and> commit_result env sm1 s1 r w3 = (rep, sm2, w2)"
          then obtain r where "commit_result env sm1 s1 r w3 = (rep, sm2, w2)" by blast
          from commit_result_frame[OF this ne1] f1 show ?thesis by simp
        next
          assume "(\<forall>r. out \<noteq> Returned r) \<and> sm2 = sm1"
          with f1 show ?thesis by simp
        qed
      qed
    qed
  qed
  with pp show ?thesis by simp
qed

lemma reachable_sm0: "reachable env api sm0"
  unfolding sm0_def by (rule reachable.create[OF reachable.init])

text \<open>
  C9, as the code has it. In every state the server reaches, the record of a session is
  written by three operations only. \<^verbatim>\<open>updateSession\<close> assigns the fields of the patch, sets
  \<^verbatim>\<open>lastActivity\<close> to the time of the call and leaves id, creation time and messages as
  they were. \<^verbatim>\<open>getSession\<close> is not a pure read: it sets \<^verbatim>\<open>lastActivity\<close>, and nothing else.
  \<^verbatim>\<open>processPromptWithMCP\<close> changes the session it is given at most in its \<^verbatim>\<open>messages\<close>,
  which it assigns itself. Everything else leaves the record as it is: an update or a read
  of another session, creating, deleting or expiring another session, and the prompt route
  when it works on another session (\<^verbatim>\<open>getAllSessions\<close> only reads); deleting or expiring
  the session itself removes the record without changing it.
\<close>

theorem session_writes:
  assumes "reachable env api sm" and "map_of (sessions sm) j = Some s"
  shows "(\<exists>s1. fst (updateSession sm j u now) = Some s1
            \<and> map_of (sessions (snd (updateSession sm j u now))) j = Some s1
            \<and> lastActivity s1 = now
            \<and> sid s1 = sid s \<and> createdAt s1 = createdAt s \<and> messages s1 = messages s
            \<and> locatorHistory s1 = (case u_locatorHistory u of None \<Rightarrow> locatorHistory s | Some l \<Rightarrow> l)
            \<and> totalSteps s1 = (case u_totalSteps u of None \<Rightarrow> totalSteps s | Some n \<Rightarrow> n)
            \<and> sessionContext s1 = (case u_context u of None \<Rightarrow> sessionContext s | Some x \<Rightarrow> x))
       \<and> fst (getSession sm j now) = Some (s\<lparr>lastActivity := now\<rparr>)
       \<and> map_of (sessions (snd (getSession sm j now))) j = Some (s\<lparr>lastActivity := now\<rparr>)
       \<and> (\<exists>ms. fst (snd (processPromptWithMCP env api msg s w)) = s\<lparr>messages := ms\<rparr>)
       \<and> (i \<noteq> j \<longrightarrow>
             map_of (sessions (snd (updateSession sm i u now))) j = Some s
           \<and> map_of (sessions (snd (getSession sm i now))) j = Some s
           \<and> map_of (sessions (snd (createSession sm i tc ta))) j = Some s
           \<and> map_of (sessions (snd (deleteSession sm i))) j = Some s
           \<and> map_of (sessions (cleanup_fires sm i now)) j = Some s)
       \<and> map_of (sessions (snd (deleteSession sm j))) j = None
       \<and> map_of (sessions (cleanup_fires sm j now)) j
           = (if now - lastActivity s > sessionTimeout sm then None else Some s)
       \<and> (\<not> resolved_id env body w j \<longrightarrow>
             map_of (sessions (fst (snd (post_prompt env api sm body w)))) j = Some s)"
proof -
  have k: "key_is_id sm"
    using reachable_store_ok[OF assms(1)] by (simp add: store_ok_def)
  have a: "\<exists>s1. fst (updateSession sm j u now) = Some s1
            \<and> map_of (sessions (snd (updateSession sm j u now))) j = Some s1
            \<and> lastActivity s1 = now
            \<and> sid s1 = sid s \<and> createdAt s1 = createdAt s \<and> messages s1 = messages s
            \<and> locatorHistory s1 = (case u_locatorHistory u of None \<Rightarrow> locatorHistory s | Some l \<Rightarrow> l)
            \<and> totalSteps s1 = (case u_totalSteps u of None \<Rightarrow> totalSteps s | Some n \<Rightarrow> n)
            \<and> sessionContext s1 = (case u_context u of None \<Rightarrow> sessionContext s | Some x \<Rightarrow> x)"
    using assms(2) by (simp add: updateSession_found AList.update_conv' assign_def)
  have b: "fst (getSession sm j now) = Some (s\<lparr>lastActivity := now\<rparr>)"
          "map_of (sessions (snd (getSession sm j now))) j = Some (s\<lparr>lastActivity := now\<rparr>)"
    using assms(2) by (simp_all add: getSession_found AList.update_conv')
  have c: "\<exists>ms. fst (snd (processPromptWithMCP env api msg s w)) = s\<lparr>messages := ms\<rparr>"
    by (rule processPromptWithMCP_session)
  have d: "map_of (sessions (snd (updateSession sm i u now))) j = Some s
           \<and> map_of (sessions (snd (getSession sm i now))) j = Some s
           \<and> map_of (sessions (snd (createSession sm i tc ta))) j = Some s
           \<and> map_of (sessions (snd (deleteSession sm i))) j = Some s
           \<and> map_of (sessions (cleanup_fires sm i now)) j = Some s" if "i \<noteq> j"
    using that assms(2)
    by (simp add: updateSession_frame getSession_frame createSession_frame deleteSession_frame
        map_of_cleanup_fires split: option.splits)
  have e: "map_of (sessions (snd (deleteSession sm j))) j = None"
    by (simp add: deleteSession_frame)
  have f: "map_of (sessions (cleanup_fires sm j now)) j
           = (if now - lastActivity s > sessionTimeout sm then None else Some s)"
    using assms(2) by (simp add: map_of_cleanup_fires)
  have g: "map_of (sessions (fst (snd (post_prompt env api sm body w)))) j = Some s"
    if "\<not> resolved_id env body w j"
    using post_prompt_frame[OF k that, of api] assms(2) by simp
  from a b c d e f g show ?thesis by blast
qed

theorem session_writes_witness:
  "reachable (scripted [navigate_reply] done_reply) api0 sm0
   \<and> map_of (sessions sm0) (lit ''u0'') = Some s0
   \<and> fst (getSession sm0 (lit ''u0'') 5) = Some (s0\<lparr>lastActivity := 5\<rparr>)
   \<and> map_of (sessions (snd (getSession sm0 (lit ''u0'') 5))) (lit ''u0'')
       = Some (s0\<lparr>lastActivity := 5\<rparr>)
   \<and> fst (updateSession sm0 (lit ''u0'')
            \<lparr>u_locatorHistory = None, u_totalSteps = Some 2, u_context = None\<rparr> 5)
       = Some (s0\<lparr>totalSteps := 2, lastActivity := 5\<rparr>)
   \<and> map_of (sessions (snd (createSession sm0 (lit ''u1'') 7 7))) (lit ''u0'') = Some s0
   \<and> map_of (sessions (snd (deleteSession sm0 (lit ''u1'')))) (lit ''u0'') = Some s0
   \<and> map_of (sessions (cleanup_fires sm0 (lit ''u0'') 1800000)) (lit ''u0'') = Some s0
   \<and> map_of (sessions (cleanup_fires sm0 (lit ''u0'') 1800001)) (lit ''u0'') = None
   \<and> map_of (sessions (fst (snd (post_prompt (scripted [navigate_reply] done_reply) api0 sm0
                                    (new_body (lit ''navigate to example.com'')) 0)))) (lit ''u0'')
       = Some s0"
proof -
  let ?env = "scripted [navigate_reply] done_reply"
  have r: "reachable ?env api0 sm0" by (rule reachable_sm0)
  have m: "map_of (sessions sm0) (lit ''u0'') = Some s0" by (rule lookup_sm0)
  have nr: "\<not> resolved_id ?env (new_body (lit ''navigate to example.com'')) 0 (lit ''u0'')"
    by (simp add: resolved_id_def new_body_def)
  have t: "sessionTimeout sm0 = 1800000" "lastActivity s0 = 0"
    by (simp_all add: sm0_def s0_def createSession_def SessionManager_new_def Let_def
        scheduleCleanup_def new_session_def)
  have ne: "lit ''u1'' \<noteq> lit ''u0''" by simp
  note w1 = session_writes[OF r m, where now = 5 and i = "lit ''u1''" and tc = 7 and ta = 7
              and u = "\<lparr>u_locatorHistory = None, u_totalSteps = Some 2, u_context = None\<rparr>"
              and body = "new_body (lit ''navigate to example.com'')" and w = 0
              and msg = "lit ''go''"]
  note w2 = session_writes[OF r m, where now = 1800000 and i = "lit ''u1''" and tc = 7 and ta = 7
              and u = "\<lparr>u_locatorHistory = None, u_totalSteps = Some 2, u_context = None\<rparr>"
              and body = "new_body (lit ''navigate to example.com'')" and w = 0
              and msg = "lit ''go''"]
  note w3 = session_writes[OF r m, where now = 1800001 and i = "lit ''u1''" and tc = 7 and ta = 7
              and u = "\<lparr>u_locatorHistory = None, u_totalSteps = Some 2, u_context = None\<rparr>"
              and body = "new_body (lit ''navigate to example.com'')" and w = 0
              and msg = "lit ''go''"]
  have upd: "fst (updateSession sm0 (lit ''u0'')
            \<lparr>u_locatorHistory = None, u_totalSteps = Some 2, u_context = None\<rparr> 5)
       = Some (s0\<lparr>totalSteps := 2, lastActivity := 5\<rparr>)"
    by (simp add: updateSession_found[OF m] assign_def)
  from r m nr t ne w1 w2 w3 upd show ?thesis by simp
qed

end
